theory Spec2Isabelle
  imports Main "HOL-Library.Sublist"
begin

section \<open>Strings and the path functions of Go's standard library\<close>

text \<open>
  The path namespace of \<^verbatim>\<open>android/paths.go\<close> is built on a few functions of Go's
  standard library (packages \<^verbatim>\<open>strings\<close> and \<^verbatim>\<open>path/filepath\<close>, Unix flavour), which
  are not part of the repository. They are modelled here after their documented
  behaviour, on \<^typ>\<open>string\<close> (a list of bytes, as a Go string is). \<^verbatim>\<open>filepath.Clean\<close>
  is modelled on the elements of the path, between the slashes: it reads them from left
  to right and keeps a list of the elements of the result.
\<close>

definition HasPrefix :: "string \<Rightarrow> string \<Rightarrow> bool" where
  \<comment> \<open>\<^verbatim>\<open>strings.HasPrefix(s, prefix)\<close>\<close>
  "HasPrefix s p = (take (length p) s = p)"

definition IsAbs :: "string \<Rightarrow> bool" where
  \<comment> \<open>\<^verbatim>\<open>filepath.IsAbs(path)\<close> on Unix\<close>
  "IsAbs s = HasPrefix s ''/''"

fun split_slash :: "string \<Rightarrow> string list" where
  \<comment> \<open>\<^verbatim>\<open>strings.Split(s, "/")\<close>\<close>
  "split_slash [] = [[]]"
| "split_slash (c # cs) =
     (if c = CHR ''/'' then [] # split_slash cs
      else (case split_slash cs of
              [] \<Rightarrow> [[c]]
            | w # ws \<Rightarrow> (c # w) # ws))"

fun join_slash :: "string list \<Rightarrow> string" where
  \<comment> \<open>\<^verbatim>\<open>strings.Join(elems, "/")\<close>\<close>
  "join_slash [] = []"
| "join_slash [e] = e"
| "join_slash (e # e' # es) = e @ CHR ''/'' # join_slash (e' # es)"

definition clean_elem :: "bool \<Rightarrow> string list \<Rightarrow> string \<Rightarrow> string list" where
  \<comment> \<open>One round of the loop of \<^verbatim>\<open>filepath.Clean\<close>: the elements written so far, and
      the next element read. An empty element and \<^verbatim>\<open>.\<close> are dropped; \<^verbatim>\<open>..\<close> removes the
      element before it, unless there is none or it is itself \<^verbatim>\<open>..\<close>, where it is kept
      (dropped when the path is rooted).\<close>
  "clean_elem rooted out e =
     (if e = [] \<or> e = ''.'' then out
      else if e = ''..'' then
        (if out \<noteq> [] \<and> last out \<noteq> ''..'' then butlast out
         else if rooted then out
         else out @ [''..''])
      else out @ [e])"

definition Clean :: "string \<Rightarrow> string" where
  \<comment> \<open>\<^verbatim>\<open>filepath.Clean(path)\<close>: the shortest equivalent path; \<^verbatim>\<open>.\<close> for the empty one.\<close>
  "Clean p =
     (if p = [] then ''.''
      else let rooted = (hd p = CHR ''/'');
               out = (if rooted then ''/'' else []) @
                     join_slash (foldl (clean_elem rooted) [] (split_slash p))
           in if out = [] then ''.'' else out)"

definition Join :: "string list \<Rightarrow> string" where
  \<comment> \<open>\<^verbatim>\<open>filepath.Join(elem...)\<close>: leading empty elements are ignored, the rest is joined
      with slashes and cleaned; the empty string when every element is empty.\<close>
  "Join elems =
     (case dropWhile (\<lambda>e. e = []) elems of
        [] \<Rightarrow> []
      | e # es \<Rightarrow> Clean (join_slash (e # es)))"

definition path_elems :: "string \<Rightarrow> string list" where
  \<comment> \<open>The elements of the cleaned form of a relative path (none for \<^verbatim>\<open>.\<close>).\<close>
  "path_elems p = foldl (clean_elem False) [] (split_slash p)"

section \<open>Validation of path components\<close>

datatype path_error =
    InvalidCharacter string   \<comment> \<open>\<^verbatim>\<open>Path contains invalid character($): %s\<close>\<close>
  | OutsideDirectory string   \<comment> \<open>\<^verbatim>\<open>Path is outside directory: %s\<close>\<close>
  | SourceInOutput string     \<comment> \<open>\<^verbatim>\<open>source path %q is in output\<close>\<close>
  | ContainsGlob string       \<comment> \<open>\<^verbatim>\<open>path may not contain a glob: %s\<close>\<close>
  | GlobFailed string         \<comment> \<open>\<^verbatim>\<open>glob: %s\<close>\<close>
  | FsFailed string string    \<comment> \<open>\<^verbatim>\<open>%s: %s\<close>, a path and the file system's error\<close>
  | DoesNotExist string       \<comment> \<open>\<^verbatim>\<open>source path %q does not exist\<close>\<close>

fun outside_directory :: "string list \<Rightarrow> path_error option" where
  \<comment> \<open>The loop of \<^verbatim>\<open>validateSafePath\<close>: the first component that leaves its directory.\<close>
  "outside_directory [] = None"
| "outside_directory (c # cs) =
     (let p = Clean c in
      if p = ''..'' \<or> HasPrefix p ''../'' \<or> HasPrefix p ''/''
      then Some (OutsideDirectory p)
      else outside_directory cs)"

definition validateSafePath :: "string list \<Rightarrow> string \<times> path_error option" where
  "validateSafePath pathComponents =
     (case outside_directory pathComponents of
        Some e \<Rightarrow> ([], Some e)
      | None \<Rightarrow> (Join pathComponents, None))"

fun invalid_character :: "string list \<Rightarrow> path_error option" where
  \<comment> \<open>The loop of \<^verbatim>\<open>validatePath\<close>: the first component that holds a \<^verbatim>\<open>$\<close>.\<close>
  "invalid_character [] = None"
| "invalid_character (c # cs) =
     (if CHR ''$'' \<in> set c then Some (InvalidCharacter c) else invalid_character cs)"

definition validatePath :: "string list \<Rightarrow> string \<times> path_error option" where
  "validatePath pathComponents =
     (case invalid_character pathComponents of
        Some e \<Rightarrow> ([], Some e)
      | None \<Rightarrow> validateSafePath pathComponents)"

section \<open>Contexts, effects and paths\<close>

text \<open>
  A context (\<^verbatim>\<open>PathContext\<close>, \<^verbatim>\<open>ModuleContext\<close>, \<^verbatim>\<open>ModuleInstallPathContext\<close>) is an
  interface value in the source. Its read-only part is the record \<open>PathContext\<close>: the
  configuration, the file system it looks at, the interfaces its dynamic type
  implements (what the type assertions of the source test), and the attributes of the
  module being built. What the source does to a context (the errors it reports, the
  dependencies it registers) is the record \<open>effects\<close>, threaded through every call.
\<close>

record Config =
  srcDir :: string
  buildDir :: string
  AllowMissingDependencies :: bool
  DeviceName :: string
  VendorPath :: string
  OdmPath :: string
  ProductPath :: string
  ProductServicesPath :: string

datatype OsType = Linux | LinuxBionic | OtherOs string
  \<comment> \<open>\<^verbatim>\<open>OtherOs n\<close>: an operating system whose \<^verbatim>\<open>String()\<close> is \<open>n\<close>\<close>

record PathContext =
  Config :: Config
  Fs_Exists :: "string \<Rightarrow> bool \<times> string option"
    \<comment> \<open>\<^verbatim>\<open>ctx.Fs().Exists(path)\<close>: whether the file exists, and the error if any\<close>
  Glob :: "string \<Rightarrow> string list \<times> string list \<times> string option"
    \<comment> \<open>\<^verbatim>\<open>pathtools.Glob(pattern, nil, FollowSymlinks)\<close>: the files, the dependencies, the
        error; \<^verbatim>\<open>GlobWithDeps\<close> returns the same files and error\<close>
  is_moduleErrorf :: bool
  is_errorfContext :: bool
  is_PathGlobContext :: bool
  is_ModuleContext :: bool
  ModuleDir :: string
  ModuleName :: string
  ModuleSubDir :: string
  Os :: OsType
  Device :: bool
  Debug :: bool
  InstallInData :: bool
  InstallInSanitizerDir :: bool
  InstallInRecovery :: bool
  SocSpecific :: bool
  DeviceSpecific :: bool
  ProductSpecific :: bool
  ProductServicesSpecific :: bool

record effects =
  moduleErrors :: "path_error list"   \<comment> \<open>the calls of \<^verbatim>\<open>ModuleErrorf\<close>\<close>
  contextErrors :: "path_error list"  \<comment> \<open>the calls of \<^verbatim>\<open>Errorf\<close>\<close>
  ninjaFileDeps :: "string list"      \<comment> \<open>the arguments of \<^verbatim>\<open>AddNinjaFileDeps\<close>\<close>
  globDeps :: "string list"           \<comment> \<open>the patterns given to \<^verbatim>\<open>GlobWithDeps\<close>\<close>
  missingDeps :: "string list"        \<comment> \<open>the arguments of \<^verbatim>\<open>AddMissingDependencies\<close>\<close>

datatype panic =
    PanicError path_error   \<comment> \<open>\<^verbatim>\<open>reportPathErrorf\<close> on a context that takes no errors\<close>
  | PanicInvalidPath        \<comment> \<open>\<^verbatim>\<open>Requesting an invalid path\<close>\<close>
  | PanicNilPath            \<comment> \<open>a method called on a nil \<^verbatim>\<open>Path\<close>\<close>

type_synonym 'a result = "panic + 'a"

definition and_then :: "'a result \<Rightarrow> ('a \<Rightarrow> 'b result) \<Rightarrow> 'b result" where
  \<comment> \<open>Sequencing: a panic ends the computation.\<close>
  "and_then r f = (case r of Inl p \<Rightarrow> Inl p | Inr x \<Rightarrow> f x)"

definition reportPathErrorf :: "PathContext \<Rightarrow> path_error \<Rightarrow> effects \<Rightarrow> effects result" where
  "reportPathErrorf ctx e eff =
     (if is_moduleErrorf ctx then Inr (eff\<lparr>moduleErrors := moduleErrors eff @ [e]\<rparr>)
      else if is_errorfContext ctx then Inr (eff\<lparr>contextErrors := contextErrors eff @ [e]\<rparr>)
      else Inl (PanicError e))"

definition reportPathError :: "PathContext \<Rightarrow> path_error \<Rightarrow> effects \<Rightarrow> effects result" where
  "reportPathError ctx e eff = reportPathErrorf ctx e eff"

definition report_if :: "PathContext \<Rightarrow> path_error option \<Rightarrow> effects \<Rightarrow> effects result" where
  \<comment> \<open>\<^verbatim>\<open>if err != nil { reportPathError(ctx, err) }\<close>\<close>
  "report_if ctx err eff = (case err of Some e \<Rightarrow> reportPathError ctx e eff | None \<Rightarrow> Inr eff)"

record basePath =
  path :: string
  config :: Config
  rel :: string

type_synonym SourcePath = basePath
type_synonym OutputPath = basePath
type_synonym ModuleOutPath = OutputPath

datatype Path = SourcePath SourcePath | OutputPath OutputPath | ModuleOutPath ModuleOutPath
  \<comment> \<open>A value of the interface \<^verbatim>\<open>Path\<close>, tagged with its dynamic type.\<close>

definition basePath_Rel :: "basePath \<Rightarrow> string" where
  "basePath_Rel p = (if rel p \<noteq> [] then rel p else path p)"

definition withRel :: "basePath \<Rightarrow> string \<Rightarrow> basePath" where
  "withRel p r = p\<lparr>path := Join [path p, r], rel := r\<rparr>"

definition SourcePath_String :: "SourcePath \<Rightarrow> string" where
  "SourcePath_String p = Join [srcDir (config p), path p]"

definition OutputPath_String :: "OutputPath \<Rightarrow> string" where
  "OutputPath_String p = Join [buildDir (config p), path p]"

fun Path_String :: "Path \<Rightarrow> string" where
  "Path_String (SourcePath p) = SourcePath_String p"
| "Path_String (OutputPath p) = OutputPath_String p"
| "Path_String (ModuleOutPath p) = OutputPath_String p"

fun Path_Rel :: "Path \<Rightarrow> string" where
  "Path_Rel (SourcePath p) = basePath_Rel p"
| "Path_Rel (OutputPath p) = basePath_Rel p"
| "Path_Rel (ModuleOutPath p) = basePath_Rel p"

subsection \<open>OptionalPath\<close>

record OptionalPath =
  valid :: bool
  opath :: "Path option"   \<comment> \<open>the field \<^verbatim>\<open>path\<close>; \<open>None\<close> is the nil interface value\<close>

definition OptionalPath_empty :: OptionalPath where
  \<comment> \<open>\<^verbatim>\<open>OptionalPath{}\<close>\<close>
  "OptionalPath_empty = \<lparr>valid = False, opath = None\<rparr>"

definition OptionalPathForPath :: "Path option \<Rightarrow> OptionalPath" where
  "OptionalPathForPath p =
     (case p of None \<Rightarrow> OptionalPath_empty | Some q \<Rightarrow> \<lparr>valid = True, opath = Some q\<rparr>)"

definition Valid :: "OptionalPath \<Rightarrow> bool" where
  "Valid p = valid p"

definition OptionalPath_Path :: "OptionalPath \<Rightarrow> Path option result" where
  "OptionalPath_Path p = (if \<not> valid p then Inl PanicInvalidPath else Inr (opath p))"

definition OptionalPath_String :: "OptionalPath \<Rightarrow> string result" where
  "OptionalPath_String p =
     (if valid p then (case opath p of None \<Rightarrow> Inl PanicNilPath | Some q \<Rightarrow> Inr (Path_String q))
      else Inr [])"

subsection \<open>Source paths\<close>

definition IsGlob :: "string \<Rightarrow> bool" where
  \<comment> \<open>\<^verbatim>\<open>pathtools.IsGlob\<close>: the pattern holds one of \<^verbatim>\<open>*?[\<close>\<close>
  "IsGlob s = (CHR ''*'' \<in> set s \<or> CHR ''?'' \<in> set s \<or> CHR ''['' \<in> set s)"

definition pathForSource :: "PathContext \<Rightarrow> string list \<Rightarrow> SourcePath \<times> path_error option" where
  "pathForSource ctx pathComponents =
     (case validatePath pathComponents of (p, err) \<Rightarrow>
        let ret = \<lparr>path = p, config = Config ctx, rel = []\<rparr> in
        if err \<noteq> None then (ret, err)
        else if HasPrefix (SourcePath_String ret) (buildDir (Config ctx))
        then (ret, Some (SourceInOutput (SourcePath_String ret)))
        else (ret, None))"

definition existsWithDependencies ::
  "PathContext \<Rightarrow> SourcePath \<Rightarrow> effects \<Rightarrow> (bool \<times> path_error option) \<times> effects" where
  "existsWithDependencies ctx p eff =
     (case Glob ctx (SourcePath_String p) of (files, deps, err) \<Rightarrow>
        let eff' = (if is_PathGlobContext ctx
                    then eff\<lparr>globDeps := globDeps eff @ [SourcePath_String p]\<rparr>
                    else eff\<lparr>ninjaFileDeps := ninjaFileDeps eff @ deps\<rparr>)
        in (case err of
              Some m \<Rightarrow> ((False, Some (GlobFailed m)), eff')
            | None \<Rightarrow> ((files \<noteq> [], None), eff')))"

definition PathForSource ::
  "PathContext \<Rightarrow> string list \<Rightarrow> effects \<Rightarrow> (SourcePath \<times> effects) result" where
  "PathForSource ctx pathComponents eff =
     (case pathForSource ctx pathComponents of (p, err) \<Rightarrow>
      and_then (report_if ctx err eff) (\<lambda>eff1.
      and_then (if IsGlob (SourcePath_String p)
                then reportPathErrorf ctx (ContainsGlob (SourcePath_String p)) eff1
                else Inr eff1) (\<lambda>eff2.
      and_then
        (if is_ModuleContext ctx \<and> AllowMissingDependencies (Config ctx) then
           (case existsWithDependencies ctx p eff2 of ((ex, err'), eff3) \<Rightarrow>
              and_then (report_if ctx err' eff3) (\<lambda>eff4.
                Inr (if \<not> ex then eff4\<lparr>missingDeps := missingDeps eff4 @ [SourcePath_String p]\<rparr>
                     else eff4)))
         else
           (case Fs_Exists ctx (SourcePath_String p) of
              (ex, Some m) \<Rightarrow> reportPathErrorf ctx (FsFailed (SourcePath_String p) m) eff2
            | (ex, None) \<Rightarrow>
                if \<not> ex then reportPathErrorf ctx (DoesNotExist (SourcePath_String p)) eff2
                else Inr eff2))
        (\<lambda>eff5. Inr (p, eff5)))))"

definition ExistentPathForSource ::
  "PathContext \<Rightarrow> string list \<Rightarrow> effects \<Rightarrow> (OptionalPath \<times> effects) result" where
  "ExistentPathForSource ctx pathComponents eff =
     (case pathForSource ctx pathComponents of (p, err) \<Rightarrow>
        (case err of
           Some e \<Rightarrow>
             and_then (reportPathError ctx e eff) (\<lambda>eff'. Inr (OptionalPath_empty, eff'))
         | None \<Rightarrow>
             if IsGlob (SourcePath_String p) then
               and_then (reportPathErrorf ctx (ContainsGlob (SourcePath_String p)) eff)
                 (\<lambda>eff'. Inr (OptionalPath_empty, eff'))
             else
               (case existsWithDependencies ctx p eff of
                  ((ex, Some e), eff1) \<Rightarrow>
                    and_then (reportPathError ctx e eff1) (\<lambda>eff'. Inr (OptionalPath_empty, eff'))
                | ((ex, None), eff1) \<Rightarrow>
                    if \<not> ex then Inr (OptionalPath_empty, eff1)
                    else Inr (OptionalPathForPath (Some (SourcePath p)), eff1))))"

definition SourcePath_Join ::
  "SourcePath \<Rightarrow> PathContext \<Rightarrow> string list \<Rightarrow> effects \<Rightarrow> (SourcePath \<times> effects) result" where
  "SourcePath_Join p ctx paths eff =
     (case validatePath paths of (q, err) \<Rightarrow>
        and_then (report_if ctx err eff) (\<lambda>eff'. Inr (withRel p q, eff')))"

subsection \<open>Output paths\<close>

definition PathForOutput ::
  "PathContext \<Rightarrow> string list \<Rightarrow> effects \<Rightarrow> (OutputPath \<times> effects) result" where
  "PathForOutput ctx pathComponents eff =
     (case validatePath pathComponents of (p, err) \<Rightarrow>
        and_then (report_if ctx err eff)
          (\<lambda>eff'. Inr (\<lparr>path = p, config = Config ctx, rel = []\<rparr>, eff')))"

definition OutputPath_Join ::
  "OutputPath \<Rightarrow> PathContext \<Rightarrow> string list \<Rightarrow> effects \<Rightarrow> (OutputPath \<times> effects) result" where
  "OutputPath_Join p ctx paths eff =
     (case validatePath paths of (q, err) \<Rightarrow>
        and_then (report_if ctx err eff) (\<lambda>eff'. Inr (withRel p q, eff')))"

definition pathForModule :: "PathContext \<Rightarrow> effects \<Rightarrow> (OutputPath \<times> effects) result" where
  "pathForModule ctx eff =
     PathForOutput ctx [''.intermediates'', ModuleDir ctx, ModuleName ctx, ModuleSubDir ctx] eff"

definition PathForModuleOut ::
  "PathContext \<Rightarrow> string list \<Rightarrow> effects \<Rightarrow> (ModuleOutPath \<times> effects) result" where
  "PathForModuleOut ctx paths eff =
     (case validatePath paths of (p, err) \<Rightarrow>
        and_then (report_if ctx err eff) (\<lambda>eff1.
        and_then (pathForModule ctx eff1) (\<lambda>(root, eff2).
          Inr (withRel root p, eff2))))"

subsection \<open>Install paths\<close>

definition modulePartition :: "PathContext \<Rightarrow> string" where
  "modulePartition ctx =
     (let partition =
        (if InstallInData ctx then ''data''
         else if InstallInRecovery ctx then ''recovery/root/system''
         else if SocSpecific ctx then VendorPath (Config ctx)
         else if DeviceSpecific ctx then OdmPath (Config ctx)
         else if ProductSpecific ctx then ProductPath (Config ctx)
         else if ProductServicesSpecific ctx then ProductServicesPath (Config ctx)
         else ''system'')
      in if InstallInSanitizerDir ctx then ''data/asan/'' @ partition else partition)"

definition PathForModuleInstall ::
  "PathContext \<Rightarrow> string list \<Rightarrow> effects \<Rightarrow> (OutputPath \<times> effects) result" where
  "PathForModuleInstall ctx pathComponents eff =
     (let outPaths =
        (if Device ctx
         then [''target'', ''product'', DeviceName (Config ctx), modulePartition ctx]
         else (case Os ctx of
                 Linux \<Rightarrow> [''host'', ''linux-x86'']
               | LinuxBionic \<Rightarrow> [''host'', ''linux_bionic-x86'']
               | OtherOs n \<Rightarrow> [''host'', n @ ''-x86'']));
          outPaths = (if Debug ctx then [''debug''] @ outPaths else outPaths);
          outPaths = outPaths @ pathComponents
      in PathForOutput ctx outPaths eff)"

section \<open>Lists of paths without duplicates\<close>

text \<open>
  \<^verbatim>\<open>FirstUniquePaths\<close> and \<^verbatim>\<open>LastUniquePaths\<close> work in place on the slice they are
  given and return a subslice of it. The slice is a list here, an assignment
  \<^verbatim>\<open>list[k] = v\<close> is a list update, and the loop counters are those of the source. Two
  paths are compared with \<^verbatim>\<open>==\<close>, the equality of the elements of the list.
  Every index the loops read or write lies inside the slice: \<open>j < k \<le> i < len(list)\<close> in
  the first function, \<open>totalSkip \<le> j < j + skip < i < len(list)\<close> in the second.
\<close>

function FirstUniquePaths_seen :: "'a list \<Rightarrow> nat \<Rightarrow> nat \<Rightarrow> nat \<Rightarrow> bool" where
  \<comment> \<open>The inner loop, from \<open>j\<close> on: whether \<^verbatim>\<open>continue outer\<close> is reached.\<close>
  "FirstUniquePaths_seen list i k j =
     (if j < k then
        (if list ! i = list ! j then True else FirstUniquePaths_seen list i k (j + 1))
      else False)"
  by pat_completeness auto
termination
  by (relation "measure (\<lambda>(list, i, k, j). k - j)") auto

declare FirstUniquePaths_seen.simps [simp del]

function FirstUniquePaths_loop :: "'a list \<Rightarrow> nat \<Rightarrow> nat \<Rightarrow> 'a list" where
  \<comment> \<open>The outer loop, from \<open>i\<close> on, with \<open>k\<close> elements kept so far.\<close>
  "FirstUniquePaths_loop list k i =
     (if i < length list then
        (if FirstUniquePaths_seen list i k 0 then FirstUniquePaths_loop list k (i + 1)
         else FirstUniquePaths_loop (list[k := list ! i]) (k + 1) (i + 1))
      else take k list)"
  by pat_completeness auto
termination
  by (relation "measure (\<lambda>(list, k, i). length list - i)") auto

declare FirstUniquePaths_loop.simps [simp del]

definition FirstUniquePaths :: "'a list \<Rightarrow> 'a list" where
  "FirstUniquePaths list = FirstUniquePaths_loop list 0 0"

function LastUniquePaths_inner ::
  "'a list \<Rightarrow> int \<Rightarrow> int \<Rightarrow> int \<Rightarrow> int \<Rightarrow> 'a list \<times> int" where
  \<comment> \<open>The inner loop, from \<open>j\<close> down: the list and \<open>skip\<close> when it ends.\<close>
  "LastUniquePaths_inner list i totalSkip skip j =
     (if j \<ge> totalSkip then
        (if list ! nat i = list ! nat j
         then LastUniquePaths_inner list i totalSkip (skip + 1) (j - 1)
         else LastUniquePaths_inner (list[nat (j + skip) := list ! nat j]) i totalSkip skip (j - 1))
      else (list, skip))"
  by pat_completeness auto
termination
  by (relation "measure (\<lambda>(list, i, totalSkip, skip, j). nat (j - totalSkip + 1))") auto

declare LastUniquePaths_inner.simps [simp del]

function LastUniquePaths_loop :: "'a list \<Rightarrow> int \<Rightarrow> int \<Rightarrow> 'a list" where
  \<comment> \<open>The outer loop, from \<open>i\<close> down.\<close>
  "LastUniquePaths_loop list totalSkip i =
     (if i \<ge> totalSkip then
        (case LastUniquePaths_inner list i totalSkip 0 (i - 1) of
           (list', skip) \<Rightarrow> LastUniquePaths_loop list' (totalSkip + skip) (i - 1))
      else drop (nat totalSkip) list)"
  by pat_completeness auto
termination
proof (relation "measure (\<lambda>(list, totalSkip, i). nat (i - totalSkip + 1))", goal_cases)
  case 1
  show ?case by simp
next
  case (2 list totalSkip i list' skip)
  have mono: "s \<le> snd (LastUniquePaths_inner l a t s j)" for l :: "'a list" and a t s j
    by (induction l a t s j rule: LastUniquePaths_inner.induct)
       (subst LastUniquePaths_inner.simps, auto)
  from 2(2) have "skip = snd (LastUniquePaths_inner list i totalSkip 0 (i - 1))"
    by (metis snd_conv)
  with mono[of 0 list i totalSkip "i - 1"] 2(1) show ?case by simp
qed

declare LastUniquePaths_loop.simps [simp del]

definition LastUniquePaths :: "'a list \<Rightarrow> 'a list" where
  "LastUniquePaths list = LastUniquePaths_loop list 0 (int (length list) - 1)"

section \<open>Installing an app\<close>

text \<open>
  The app module (\<^verbatim>\<open>AndroidApp\<close>). \<^verbatim>\<open>dexBuildActions\<close> chooses the path handed to
  dexpreopt. \<^verbatim>\<open>generateAndroidBuildActions\<close> runs the steps of the build, returns early
  when \<^verbatim>\<open>ctx.Failed()\<close> holds, and otherwise ends with the call of \<^verbatim>\<open>ctx.InstallFile\<close>;
  its result here is the path it has set for dexpreopt and the first two arguments of
  \<^verbatim>\<open>InstallFile\<close> (the directory and the file name), or \<open>None\<close> when it returns before
  that call. The steps whose code is in other files enter as parameters:
  \<^verbatim>\<open>ctx.DeviceConfig().OverridePackageNameFor\<close>, and \<open>other_errors\<close>, which tells whether
  one of the steps before the test of \<^verbatim>\<open>ctx.Failed()\<close> other than the install path of
  \<^verbatim>\<open>dexBuildActions\<close> (resources, compilation, dependencies, JNI libraries) has reported
  an error against the module. The signing step, which comes after the test, builds none
  of the paths of the result and is not part of the model.
\<close>

record appProperties =
  Privileged :: "bool option"   \<comment> \<open>\<^verbatim>\<open>*bool\<close>: \<open>None\<close> when the property is not set\<close>

record AndroidApp =
  appProperties :: appProperties
  installApkName :: string

definition proptools_Bool :: "bool option \<Rightarrow> bool" where
  \<comment> \<open>\<^verbatim>\<open>proptools.Bool\<close>: false for nil\<close>
  "proptools_Bool b = (b = Some True)"

definition Failed :: "effects \<Rightarrow> bool" where
  \<comment> \<open>\<^verbatim>\<open>ctx.Failed()\<close>: an error has been reported through the context.\<close>
  "Failed eff \<longleftrightarrow> moduleErrors eff \<noteq> [] \<or> contextErrors eff \<noteq> []"

definition dexBuildActions_installPath ::
  "AndroidApp \<Rightarrow> PathContext \<Rightarrow> effects \<Rightarrow> (OutputPath \<times> effects) result" where
  "dexBuildActions_installPath a ctx eff =
     (let installDir =
        (if ModuleName ctx = ''framework-res'' then ''framework''
         else if proptools_Bool (Privileged (appProperties a))
         then Join [''priv-app'', installApkName a]
         else Join [''app'', installApkName a])
      in PathForModuleInstall ctx [installDir, installApkName a @ ''.apk''] eff)"

definition generateAndroidBuildActions ::
  "(string \<Rightarrow> string) \<Rightarrow> bool \<Rightarrow> AndroidApp \<Rightarrow> PathContext \<Rightarrow> effects \<Rightarrow>
     ((OutputPath \<times> (OutputPath \<times> string) option) \<times> effects) result" where
  "generateAndroidBuildActions OverridePackageNameFor other_errors a ctx eff =
     (let a = a\<lparr>installApkName := OverridePackageNameFor (ModuleName ctx)\<rparr> in
      and_then (dexBuildActions_installPath a ctx eff) (\<lambda>(installPath, eff1).
        if Failed eff1 \<or> other_errors then Inr ((installPath, None), eff1)
        else
          and_then (PathForModuleOut ctx [ModuleName ctx @ ''.apk''] eff1) (\<lambda>(packageFile, eff2).
          and_then (PathForModuleOut ctx [''base.zip''] eff2) (\<lambda>(bundleFile, eff3).
            if ModuleName ctx = ''framework-res'' then
              and_then (PathForModuleInstall ctx [''framework''] eff3) (\<lambda>(dir, eff4).
                Inr ((installPath, Some (dir, ModuleName ctx @ ''.apk'')), eff4))
            else if proptools_Bool (Privileged (appProperties a)) then
              and_then (PathForModuleInstall ctx [''priv-app'', installApkName a] eff3)
                (\<lambda>(dir, eff4). Inr ((installPath, Some (dir, installApkName a @ ''.apk'')), eff4))
            else
              and_then (PathForModuleInstall ctx [''app'', installApkName a] eff3)
                (\<lambda>(dir, eff4). Inr ((installPath, Some (dir, installApkName a @ ''.apk'')), eff4))))))"

section \<open>The text file of the apex keys\<close>









section \<open>Notions used by the statements\<close>

definition stays_inside :: "string \<Rightarrow> bool" where
  \<comment> \<open>The test \<^verbatim>\<open>validateSafePath\<close> makes on one component, passed.\<close>
  "stays_inside c \<longleftrightarrow>
     \<not> (Clean c = ''..'' \<or> HasPrefix (Clean c) ''../'' \<or> HasPrefix (Clean c) ''/'')"

definition plain_name :: "string \<Rightarrow> bool" where
  \<comment> \<open>A single path element that names a file or a directory.\<close>
  "plain_name n \<longleftrightarrow>
     n \<noteq> [] \<and> n \<noteq> ''.'' \<and> n \<noteq> ''..'' \<and> CHR ''/'' \<notin> set n \<and> CHR ''$'' \<notin> set n"

definition clean_dir :: "string \<Rightarrow> bool" where
  \<comment> \<open>A relative directory in cleaned form: \<^verbatim>\<open>.\<close>, or names joined by slashes.\<close>
  "clean_dir d \<longleftrightarrow> Clean d = d \<and> stays_inside d \<and> CHR ''$'' \<notin> set d"

fun first_occurrences :: "'a list \<Rightarrow> 'a list \<Rightarrow> 'a list" where
  \<comment> \<open>The elements kept so far, followed by the elements of the list that are new.\<close>
  "first_occurrences kept [] = kept"
| "first_occurrences kept (x # xs) =
     (if x \<in> set kept then first_occurrences kept xs else first_occurrences (kept @ [x]) xs)"

definition under_install_dir :: "PathContext \<Rightarrow> effects \<Rightarrow> string \<Rightarrow> OutputPath \<Rightarrow> bool" where
  \<comment> \<open>The path lies in the directory \<open>d\<close> of the root \<^verbatim>\<open>PathForModuleInstall(ctx)\<close>.\<close>
  "under_install_dir ctx eff d p =
     (case PathForModuleInstall ctx [] eff of
        Inl _ \<Rightarrow> False
      | Inr (root, _) \<Rightarrow> prefix (path_elems (path root) @ [d]) (path_elems (path p)))"

definition render_path :: "bool \<Rightarrow> string list \<Rightarrow> string" where
  \<comment> \<open>What \<^verbatim>\<open>filepath.Clean\<close> returns for the elements it has kept.\<close>
  "render_path rooted es =
     (let out = (if rooted then ''/'' else []) @ join_slash es
      in if out = [] then ''.'' else out)"

definition proper_elems :: "string list \<Rightarrow> bool" where
  \<comment> \<open>Elements as \<^verbatim>\<open>filepath.Clean\<close> keeps them: not empty, not \<^verbatim>\<open>.\<close>, without a slash.\<close>
  "proper_elems es \<longleftrightarrow> (\<forall>e\<in>set es. e \<noteq> [] \<and> e \<noteq> ''.'' \<and> CHR ''/'' \<notin> set e)"

definition sub_elems :: "string \<Rightarrow> string list" where
  \<comment> \<open>The path element of a variant directory: none when the module has no variant.\<close>
  "sub_elems s = (if s = [] then [] else [s])"

definition install_root :: "PathContext \<Rightarrow> string list" where
  \<comment> \<open>The components \<^verbatim>\<open>PathForModuleInstall\<close> puts before the ones it is given.\<close>
  "install_root ctx =
     (if Debug ctx then [''debug''] else []) @
     (if Device ctx
      then [''target'', ''product'', DeviceName (Config ctx), modulePartition ctx]
      else [''host'', (case Os ctx of
                         Linux \<Rightarrow> ''linux-x86''
                       | LinuxBionic \<Rightarrow> ''linux_bionic-x86''
                       | OtherOs n \<Rightarrow> n @ ''-x86'')])"

definition module_dir_elems :: "PathContext \<Rightarrow> string list" where
  \<comment> \<open>The elements of the output directory of a module, below \<^verbatim>\<open>.intermediates\<close>.\<close>
  "module_dir_elems ctx =
     path_elems (ModuleDir ctx) @ ModuleName ctx # sub_elems (ModuleSubDir ctx)"



subsection \<open>A sample configuration\<close>

definition sample_config :: Config where
  "sample_config =
     \<lparr>srcDir = ''.'', buildDir = ''out'', AllowMissingDependencies = False,
      DeviceName = ''dev'', VendorPath = ''vendor'', OdmPath = ''odm'',
      ProductPath = ''product'', ProductServicesPath = ''product_services''\<rparr>"

definition sample_context :: PathContext where
  \<comment> \<open>A module context on a device, in an empty source tree.\<close>
  "sample_context =
     \<lparr>Config = sample_config,
      Fs_Exists = (\<lambda>f. (False, None)),
      Glob = (\<lambda>f. ([], [''d''], None)),
      is_moduleErrorf = True, is_errorfContext = False,
      is_PathGlobContext = True, is_ModuleContext = True,
      ModuleDir = ''a'', ModuleName = ''b'', ModuleSubDir = ''c'',
      Os = Linux, Device = True, Debug = False,
      InstallInData = False, InstallInSanitizerDir = False, InstallInRecovery = False,
      SocSpecific = False, DeviceSpecific = False, ProductSpecific = False,
      ProductServicesSpecific = False\<rparr>"

definition sample_singleton_context :: PathContext where
  \<comment> \<open>A singleton context: it has \<^verbatim>\<open>Errorf\<close> and no \<^verbatim>\<open>ModuleErrorf\<close>.\<close>
  "sample_singleton_context =
     sample_context\<lparr>is_moduleErrorf := False, is_errorfContext := True, is_ModuleContext := False\<rparr>"

definition sample_app :: "string \<Rightarrow> AndroidApp" where
  \<comment> \<open>A privileged app that installs under the given name.\<close>
  "sample_app n = \<lparr>appProperties = \<lparr>Privileged = Some True\<rparr>, installApkName = n\<rparr>"



definition no_effects :: effects where
  "no_effects = \<lparr>moduleErrors = [], contextErrors = [], ninjaFileDeps = [], globDeps = [],
                  missingDeps = []\<rparr>"

section \<open>Properties of the path functions\<close>

lemma split_slash_ne: "split_slash s \<noteq> []"
  by (induction s) (auto split: list.splits)

lemma split_slash_nosl: "e \<in> set (split_slash s) \<Longrightarrow> CHR ''/'' \<notin> set e"
  by (induction s arbitrary: e) (auto split: list.splits if_splits)

lemma split_slash_append:
  "split_slash (a @ CHR ''/'' # b) = split_slash a @ split_slash b"
  by (induction a) (auto split: list.splits simp: split_slash_ne)

lemma split_slash_id: "CHR ''/'' \<notin> set e \<Longrightarrow> split_slash e = [e]"
  by (induction e) auto

lemma split_join_concat:
  "cs \<noteq> [] \<Longrightarrow> split_slash (join_slash cs) = concat (map split_slash cs)"
  by (induction cs rule: join_slash.induct) (auto simp: split_slash_append)

lemma split_join:
  "xs \<noteq> [] \<Longrightarrow> \<forall>e\<in>set xs. CHR ''/'' \<notin> set e \<Longrightarrow> split_slash (join_slash xs) = xs"
  by (induction xs rule: join_slash.induct) (auto simp: split_slash_append split_slash_id)


lemma clean_elem_keeps_dotdot:
  "''..'' \<in> set out \<Longrightarrow> ''..'' \<in> set (clean_elem False out e)"
  by (cases out rule: rev_cases) (auto simp: clean_elem_def)

lemma clean_fold_keeps_dotdot:
  "''..'' \<in> set out \<Longrightarrow> ''..'' \<in> set (foldl (clean_elem False) out es)"
  by (induction es arbitrary: out) (auto simp: clean_elem_keeps_dotdot)

lemma clean_fold_prefix:
  "''..'' \<notin> set (foldl (clean_elem False) [] es) \<Longrightarrow>
   foldl (clean_elem False) out es = out @ foldl (clean_elem False) [] es"
proof (induction es rule: rev_induct)
  case Nil
  then show ?case by simp
next
  case (snoc e es)
  let ?t = "foldl (clean_elem False) [] es"
  from snoc.prems have nd: "''..'' \<notin> set (clean_elem False ?t e)" by simp
  then have "''..'' \<notin> set ?t" using clean_elem_keeps_dotdot by blast
  with snoc.IH have ih: "foldl (clean_elem False) out es = out @ ?t" by simp
  have "clean_elem False (out @ ?t) e = out @ clean_elem False ?t e"
    using nd by (cases ?t rule: rev_cases) (auto simp: clean_elem_def butlast_append)
  with ih show ?case by simp
qed

lemma clean_fold_members:
  "x \<in> set (foldl (clean_elem r) out es) \<Longrightarrow>
   x \<in> set out \<or> x = ''..'' \<or> (x \<in> set es \<and> x \<noteq> [] \<and> x \<noteq> ''.'')"
proof (induction es arbitrary: x rule: rev_induct)
  case Nil
  then show ?case by simp
next
  case (snoc e es)
  let ?t = "foldl (clean_elem r) out es"
  from snoc.prems have "x \<in> set (clean_elem r ?t e)" by simp
  then have "x \<in> set ?t \<or> x = ''..'' \<or> (x = e \<and> x \<noteq> [] \<and> x \<noteq> ''.'')"
    by (auto simp: clean_elem_def split: if_splits dest: in_set_butlastD)
  with snoc.IH show ?case by auto
qed

lemma clean_elem_dotdot_first:
  "(''..'' \<in> set out \<longrightarrow> hd out = ''..'') \<Longrightarrow>
   ''..'' \<in> set (clean_elem False out e) \<Longrightarrow> hd (clean_elem False out e) = ''..''"
  by (cases out rule: rev_cases)
     (auto simp: clean_elem_def hd_append butlast_append split: if_splits dest: in_set_butlastD)

lemma clean_fold_dotdot_first:
  "(''..'' \<in> set out \<longrightarrow> hd out = ''..'') \<Longrightarrow>
   ''..'' \<in> set (foldl (clean_elem False) out es) \<Longrightarrow>
   hd (foldl (clean_elem False) out es) = ''..''"
proof (induction es rule: rev_induct)
  case Nil
  then show ?case by simp
next
  case (snoc e es)
  then show ?case using clean_elem_dotdot_first by auto
qed

lemma clean_fold_plain:
  "\<forall>e\<in>set es. e \<noteq> [] \<and> e \<noteq> ''.'' \<and> e \<noteq> ''..'' \<Longrightarrow>
   foldl (clean_elem r) out es = out @ es"
  by (induction es arbitrary: out) (auto simp: clean_elem_def)

lemma path_elems_members:
  "x \<in> set (path_elems p) \<Longrightarrow> x \<noteq> [] \<and> x \<noteq> ''.'' \<and> CHR ''/'' \<notin> set x"
  unfolding path_elems_def
  using clean_fold_members[of x False "[]" "split_slash p"] split_slash_nosl[of x p]
  by auto


lemma join_slash_Nil_iff: "\<forall>e\<in>set es. e \<noteq> [] \<Longrightarrow> join_slash es = [] \<longleftrightarrow> es = []"
  by (induction es rule: join_slash.induct) auto

lemma hd_join_slash: "es \<noteq> [] \<Longrightarrow> hd es \<noteq> [] \<Longrightarrow> hd (join_slash es) = hd (hd es)"
  by (induction es rule: join_slash.induct) auto

lemma Clean_relative:
  "p \<noteq> [] \<Longrightarrow> hd p \<noteq> CHR ''/'' \<Longrightarrow>
   Clean p = (if path_elems p = [] then ''.'' else join_slash (path_elems p))"
  using join_slash_Nil_iff[of "path_elems p"] path_elems_members[of _ p]
  by (auto simp: Clean_def Let_def path_elems_def[symmetric])

lemma path_elems_Nil [simp]: "path_elems [] = []"
  by (simp add: path_elems_def clean_elem_def)

lemma HasPrefix_slash: "HasPrefix s ''/'' \<longleftrightarrow> s \<noteq> [] \<and> hd s = CHR ''/''"
  by (cases s) (auto simp: HasPrefix_def)

lemma Clean_rooted: "HasPrefix (Clean p) ''/'' \<longleftrightarrow> HasPrefix p ''/''"
proof (cases "p \<noteq> [] \<and> hd p = CHR ''/''")
  case True
  then show ?thesis by (auto simp: Clean_def Let_def HasPrefix_slash)
next
  case False
  show ?thesis
  proof (cases "p = []")
    case True
    then show ?thesis by (simp add: Clean_def HasPrefix_def)
  next
    case ne: False
    with False have nr: "hd p \<noteq> CHR ''/''" by simp
    show ?thesis
    proof (cases "path_elems p = []")
      case True
      with ne nr show ?thesis by (simp add: Clean_relative HasPrefix_slash)
    next
      case es: False
      then have "hd (path_elems p) \<in> set (path_elems p)" by simp
      then have h: "hd (path_elems p) \<noteq> []" "CHR ''/'' \<notin> set (hd (path_elems p))"
        using path_elems_members by blast+
      then have "hd (hd (path_elems p)) \<noteq> CHR ''/''"
        by (cases "hd (path_elems p)") auto
      with es h ne nr show ?thesis
        by (simp add: Clean_relative HasPrefix_slash hd_join_slash)
    qed
  qed
qed

lemma join_slash_dotdot:
  "join_slash (''..'' # es) = ''..'' \<or> HasPrefix (join_slash (''..'' # es)) ''../''"
  by (cases es) (auto simp: HasPrefix_def)

lemma stays_inside_no_dotdot:
  assumes "stays_inside c"
  shows "''..'' \<notin> set (path_elems c)"
proof
  assume dd: "''..'' \<in> set (path_elems c)"
  then have ne: "c \<noteq> []" by auto
  from assms have "\<not> HasPrefix c ''/''"
    by (simp add: stays_inside_def Clean_rooted)
  with ne have nr: "hd c \<noteq> CHR ''/''"
    by (simp add: HasPrefix_slash)
  from dd have "hd (path_elems c) = ''..''"
    unfolding path_elems_def using clean_fold_dotdot_first[of "[]"] by simp
  with dd obtain es where "path_elems c = ''..'' # es"
    by (cases "path_elems c") auto
  with ne nr have "Clean c = join_slash (''..'' # es)"
    by (simp add: Clean_relative)
  with assms show False
    using join_slash_dotdot[of es] by (auto simp: stays_inside_def)
qed

lemma path_elems_join_slash:
  "\<forall>c\<in>set cs. ''..'' \<notin> set (path_elems c) \<Longrightarrow>
   foldl (clean_elem False) out (concat (map split_slash cs)) = out @ concat (map path_elems cs)"
proof (induction cs arbitrary: out)
  case Nil
  then show ?case by simp
next
  case (Cons c cs)
  then have "foldl (clean_elem False) out (split_slash c) = out @ path_elems c"
    using clean_fold_prefix[of "split_slash c" out] by (simp add: path_elems_def)
  with Cons show ?case by simp
qed

lemma path_elems_plain_list:
  "\<forall>e\<in>set es. e \<noteq> [] \<and> e \<noteq> ''.'' \<and> e \<noteq> ''..'' \<and> CHR ''/'' \<notin> set e \<Longrightarrow>
   es \<noteq> [] \<Longrightarrow> path_elems (join_slash es) = es"
  by (simp add: path_elems_def split_join clean_fold_plain)

lemma path_elems_Clean:
  assumes "\<not> HasPrefix p ''/''" and "''..'' \<notin> set (path_elems p)"
  shows "path_elems (Clean p) = path_elems p"
proof (cases "p = []")
  case True
  then show ?thesis by (simp add: Clean_def path_elems_def clean_elem_def)
next
  case False
  with assms have nr: "hd p \<noteq> CHR ''/''" by (simp add: HasPrefix_slash)
  show ?thesis
  proof (cases "path_elems p = []")
    case True
    with False nr show ?thesis by (simp add: Clean_relative) (simp add: path_elems_def clean_elem_def)
  next
    case es: False
    have "\<forall>e\<in>set (path_elems p). e \<noteq> [] \<and> e \<noteq> ''.'' \<and> e \<noteq> ''..'' \<and> CHR ''/'' \<notin> set e"
      using path_elems_members assms(2) by blast
    with es False nr show ?thesis by (simp add: Clean_relative path_elems_plain_list)
  qed
qed


lemma outside_directory_None:
  "outside_directory cs = None \<longleftrightarrow> (\<forall>c\<in>set cs. stays_inside c)"
  by (induction cs) (auto simp: stays_inside_def Let_def)

lemma invalid_character_None:
  "invalid_character cs = None \<longleftrightarrow> (\<forall>c\<in>set cs. CHR ''$'' \<notin> set c)"
  by (induction cs) auto

lemma concat_path_elems_dropWhile:
  "concat (map path_elems (dropWhile (\<lambda>e. e = []) cs)) = concat (map path_elems cs)"
  by (induction cs) auto

lemma path_elems_Join:
  assumes "\<forall>c\<in>set cs. stays_inside c"
  shows "path_elems (Join cs) = concat (map path_elems cs)"
proof (cases "dropWhile (\<lambda>e. e = []) cs")
  case Nil
  have "concat (map path_elems (dropWhile (\<lambda>e. e = []) cs)) = []"
    unfolding Nil by simp
  then have "concat (map path_elems cs) = []"
    by (simp only: concat_path_elems_dropWhile)
  then show ?thesis
    unfolding Join_def Nil by simp
next
  case (Cons e es)
  let ?r = "e # es"
  have sub: "set ?r \<subseteq> set cs"
    using set_dropWhileD[of _ "\<lambda>e. e = []" cs] Cons by auto
  with assms have nd: "\<forall>c\<in>set ?r. ''..'' \<notin> set (path_elems c)"
    using stays_inside_no_dotdot by blast
  have e: "e \<noteq> []" using hd_dropWhile[of "\<lambda>e. e = []" cs] Cons by auto
  have pe: "path_elems (join_slash ?r) = concat (map path_elems ?r)"
    using path_elems_join_slash[OF nd, of "[]"]
    by (simp add: path_elems_def split_join_concat)
  have "stays_inside e" using sub assms by auto
  then have "\<not> HasPrefix e ''/''" by (simp add: stays_inside_def Clean_rooted)
  with e have "\<not> HasPrefix (join_slash ?r) ''/''"
    using hd_join_slash[of ?r] by (cases es) (auto simp: HasPrefix_slash)
  moreover have "''..'' \<notin> set (path_elems (join_slash ?r))"
    using nd pe by auto
  ultimately have "path_elems (Clean (join_slash ?r)) = concat (map path_elems ?r)"
    using path_elems_Clean pe by simp
  then show ?thesis
    using concat_path_elems_dropWhile[of cs] Cons by (simp add: Join_def)
qed

lemma validatePath_ok_iff:
  "snd (validatePath cs) = None \<longleftrightarrow>
   (\<forall>c\<in>set cs. CHR ''$'' \<notin> set c \<and> stays_inside c)"
  using outside_directory_None[of cs] invalid_character_None[of cs]
  by (auto simp: validatePath_def validateSafePath_def split: option.splits)

lemma validatePath_ok_Join:
  "snd (validatePath cs) = None \<Longrightarrow> fst (validatePath cs) = Join cs"
  by (auto simp: validatePath_def validateSafePath_def split: option.splits)

lemma validatePath_failed:
  "snd (validatePath cs) \<noteq> None \<Longrightarrow> fst (validatePath cs) = []"
  by (auto simp: validatePath_def validateSafePath_def split: option.splits)

lemma path_elems_validatePath:
  "snd (validatePath cs) = None \<Longrightarrow>
   path_elems (fst (validatePath cs)) = concat (map path_elems cs)"
  using path_elems_Join[of cs] validatePath_ok_iff[of cs] validatePath_ok_Join[of cs]
  by simp

section \<open>Properties of the loops that remove duplicates\<close>

lemma seen_iff:
  "FirstUniquePaths_seen list i k j \<longleftrightarrow> (\<exists>m. j \<le> m \<and> m < k \<and> list ! i = list ! m)"
proof (induction list i k j rule: FirstUniquePaths_seen.induct)
  case (1 list i k j)
  show ?case
  proof (cases "j < k")
    case False
    then show ?thesis by (subst FirstUniquePaths_seen.simps) auto
  next
    case True
    show ?thesis
    proof (cases "list ! i = list ! j")
      case eq: True
      with True show ?thesis by (subst FirstUniquePaths_seen.simps) auto
    next
      case ne: False
      have "(\<exists>m. j \<le> m \<and> m < k \<and> list ! i = list ! m) \<longleftrightarrow>
            (\<exists>m. j + 1 \<le> m \<and> m < k \<and> list ! i = list ! m)"
        using ne by (metis Suc_eq_plus1 Suc_leI le_eq_less_or_eq Suc_leD)
      with 1 True ne show ?thesis by (subst FirstUniquePaths_seen.simps) simp
    qed
  qed
qed

lemma seen_set:
  "k \<le> length list \<Longrightarrow> FirstUniquePaths_seen list i k 0 \<longleftrightarrow> list ! i \<in> set (take k list)"
  by (auto simp: seen_iff in_set_conv_nth)

lemma loop_first:
  "k \<le> i \<Longrightarrow> i \<le> length list \<Longrightarrow>
   FirstUniquePaths_loop list k i = first_occurrences (take k list) (drop i list)"
proof (induction list k i rule: FirstUniquePaths_loop.induct)
  case (1 list k i)
  show ?case
  proof (cases "i < length list")
    case False
    with 1 show ?thesis by (subst FirstUniquePaths_loop.simps) simp
  next
    case True
    then have d: "drop i list = list ! i # drop (Suc i) list"
      by (simp add: Cons_nth_drop_Suc)
    from 1 True have kl: "k \<le> length list" by simp
    show ?thesis
    proof (cases "FirstUniquePaths_seen list i k 0")
      case seen: True
      with 1 True kl d show ?thesis
        by (subst FirstUniquePaths_loop.simps) (simp add: seen_set)
    next
      case unseen: False
      have t: "take (k + 1) (list[k := list ! i]) = take k list @ [list ! i]"
        using 1 True by (simp add: take_Suc_conv_app_nth)
      have dd: "drop (i + 1) (list[k := list ! i]) = drop (Suc i) list"
        using 1 by simp
      from 1 True kl d unseen t dd show ?thesis
        by (subst FirstUniquePaths_loop.simps) (simp add: seen_set)
    qed
  qed
qed


lemma remdups_dup: "x \<in> set ys \<Longrightarrow> remdups (xs @ x # ys) = remdups (xs @ ys)"
  by (induction xs) auto

lemma first_occurrences_remdups:
  "distinct kept \<Longrightarrow> first_occurrences kept xs = rev (remdups (rev (kept @ xs)))"
proof (induction xs arbitrary: kept)
  case Nil
  then show ?case by (simp add: distinct_remdups_id)
next
  case (Cons x xs)
  show ?case
  proof (cases "x \<in> set kept")
    case True
    then have "remdups (rev xs @ x # rev kept) = remdups (rev xs @ rev kept)"
      by (simp add: remdups_dup)
    with True Cons show ?thesis by simp
  next
    case False
    with Cons.prems have "distinct (kept @ [x])" by simp
    from Cons.IH[OF this] False show ?thesis by simp
  qed
qed

lemma FirstUniquePaths_remdups: "FirstUniquePaths xs = rev (remdups (rev xs))"
  using loop_first[of 0 0 xs] first_occurrences_remdups[of "[]" xs]
  by (simp add: FirstUniquePaths_def)

lemma remdups_snoc: "remdups (xs @ [x]) = remdups (filter (\<lambda>y. y \<noteq> x) xs) @ [x]"
  by (induction xs) auto

lemma inner_spec:
  "0 \<le> ts \<Longrightarrow> ts \<le> j + 1 \<Longrightarrow> 0 \<le> skip \<Longrightarrow> j + skip < i \<Longrightarrow> i < int (length list) \<Longrightarrow>
   (case LastUniquePaths_inner list i ts skip j of (list', skip') \<Rightarrow>
      length list' = length list \<and>
      int (length (filter (\<lambda>y. y \<noteq> list ! nat i) (take (nat (j + 1 - ts)) (drop (nat ts) list))))
        + skip' = skip + (j + 1 - ts) \<and>
      drop (nat (ts + skip')) list' =
        filter (\<lambda>y. y \<noteq> list ! nat i) (take (nat (j + 1 - ts)) (drop (nat ts) list))
        @ drop (nat (j + 1 + skip)) list)"
proof (induction list i ts skip j rule: LastUniquePaths_inner.induct)
  case (1 list i ts skip j)
  show ?case
  proof (cases "j \<ge> ts")
    case False
    with "1.prems" have "j + 1 = ts" by simp
    with False show ?thesis
      by (subst LastUniquePaths_inner.simps) (simp add: add.commute)
  next
    case True
    let ?seg = "take (nat (j + 1 - ts)) (drop (nat ts) list)"
    let ?seg' = "take (nat (j - ts)) (drop (nat ts) list)"
    have n: "nat (j + 1 - ts) = Suc (nat (j - ts))" using True by simp
    have jl: "nat j < length list" using "1.prems" True by simp
    have len: "nat (j - ts) < length (drop (nat ts) list)" using "1.prems" True by simp
    have "nat ts + nat (j - ts) = nat j" using "1.prems" True by simp
    moreover have "nat ts \<le> length list" using "1.prems" True by simp
    ultimately have nth: "drop (nat ts) list ! nat (j - ts) = list ! nat j"
      by simp
    have seg: "?seg = ?seg' @ [list ! nat j]"
      unfolding n using take_Suc_conv_app_nth[OF len] nth by simp
    show ?thesis
    proof (cases "list ! nat i = list ! nat j")
      case eq: True
      have ih: "case LastUniquePaths_inner list i ts (skip + 1) (j - 1) of (list', skip') \<Rightarrow>
          length list' = length list \<and>
          int (length (filter (\<lambda>y. y \<noteq> list ! nat i) ?seg')) + skip' = skip + 1 + (j - ts) \<and>
          drop (nat (ts + skip')) list' =
            filter (\<lambda>y. y \<noteq> list ! nat i) ?seg' @ drop (nat (j + 1 + skip)) list"
        using "1.IH"(1)[OF True eq] "1.prems" True by (simp add: algebra_simps)
      show ?thesis
        using ih True eq seg
        by (subst LastUniquePaths_inner.simps) (auto simp: algebra_simps split: prod.splits)
    next
      case ne: False
      let ?l2 = "list[nat (j + skip) := list ! nat j]"
      have i2: "?l2 ! nat i = list ! nat i" using "1.prems" True by simp
      have seg2: "take (nat (j - ts)) (drop (nat ts) ?l2) = ?seg'"
        using "1.prems" True by (simp add: drop_update_swap nat_diff_distrib' nat_le_iff)
      have js: "nat (j + skip) < length list" using "1.prems" True by simp
      have d2: "drop (nat (j + skip)) ?l2 = list ! nat j # drop (nat (j + 1 + skip)) list"
      proof -
        have "drop (nat (j + skip)) ?l2 = (drop (nat (j + skip)) list)[0 := list ! nat j]"
          by (simp add: drop_update_swap)
        also have "drop (nat (j + skip)) list
            = list ! nat (j + skip) # drop (Suc (nat (j + skip))) list"
          using js by (simp add: Cons_nth_drop_Suc)
        also have "Suc (nat (j + skip)) = nat (j + 1 + skip)" using "1.prems" True by simp
        finally show ?thesis by simp
      qed
      have ih: "case LastUniquePaths_inner ?l2 i ts skip (j - 1) of (list', skip') \<Rightarrow>
          length list' = length list \<and>
          int (length (filter (\<lambda>y. y \<noteq> list ! nat i) ?seg')) + skip' = skip + (j - ts) \<and>
          drop (nat (ts + skip')) list' =
            filter (\<lambda>y. y \<noteq> list ! nat i) ?seg' @ list ! nat j # drop (nat (j + 1 + skip)) list"
        using "1.IH"(2)[OF True ne] "1.prems" True i2 seg2 d2 by (simp add: algebra_simps)
      show ?thesis
        using ih True ne seg
        by (subst LastUniquePaths_inner.simps) (auto simp: algebra_simps split: prod.splits)
    qed
  qed
qed


lemma loop_last:
  "0 \<le> ts \<Longrightarrow> ts \<le> i + 1 \<Longrightarrow> i < int (length list) \<Longrightarrow>
   LastUniquePaths_loop list ts i =
     remdups (take (nat (i + 1 - ts)) (drop (nat ts) list)) @ drop (nat (i + 1)) list"
proof (induction list ts i rule: LastUniquePaths_loop.induct)
  case (1 list ts i)
  show ?case
  proof (cases "i \<ge> ts")
    case False
    with "1.prems" have "i + 1 = ts" by simp
    with False show ?thesis
      by (subst LastUniquePaths_loop.simps) (simp add: add.commute)
  next
    case True
    obtain list' skip where r: "LastUniquePaths_inner list i ts 0 (i - 1) = (list', skip)"
      by (cases "LastUniquePaths_inner list i ts 0 (i - 1)")
    let ?x = "list ! nat i"
    let ?seg = "take (nat (i - ts)) (drop (nat ts) list)"
    let ?f = "filter (\<lambda>y. y \<noteq> ?x) ?seg"
    have il: "nat i < length list" using "1.prems" True by simp
    from inner_spec[of ts "i - 1" 0 i list] "1.prems" True r
    have len: "length list' = length list"
      and cnt: "int (length ?f) + skip = i - ts"
      and dr: "drop (nat (ts + skip)) list' = ?f @ drop (nat i) list"
      by simp_all
    have sk: "0 \<le> skip" "ts + skip \<le> i"
      using cnt length_filter_le[of "\<lambda>y. y \<noteq> ?x" ?seg] "1.prems" True by simp_all
    have di: "drop (nat i) list = ?x # drop (nat (i + 1)) list"
      using il "1.prems" True by (simp add: Cons_nth_drop_Suc nat_add_distrib)
    have lf: "length ?f = nat (i - (ts + skip))" using cnt by simp
    have tk: "take (nat (i - (ts + skip))) (drop (nat (ts + skip)) list') = ?f"
      unfolding dr using lf by simp
    have "drop (nat i) list' = drop (nat (i - (ts + skip))) (drop (nat (ts + skip)) list')"
      using sk "1.prems" by (simp add: nat_add_distrib[symmetric])
    also have "\<dots> = drop (nat i) list" unfolding dr using lf by simp
    finally have dl: "drop (nat i) list' = ?x # drop (nat (i + 1)) list" using di by simp
    have ih: "LastUniquePaths_loop list' (ts + skip) (i - 1) =
        remdups (take (nat (i - (ts + skip))) (drop (nat (ts + skip)) list')) @ drop (nat i) list'"
      using "1.IH"[OF True r[symmetric]] sk "1.prems" len True by simp
    have seg: "take (nat (i + 1 - ts)) (drop (nat ts) list) = ?seg @ [?x]"
    proof -
      have n: "nat (i + 1 - ts) = Suc (nat (i - ts))" using True by simp
      have l: "nat (i - ts) < length (drop (nat ts) list)" using "1.prems" True by simp
      have "nat ts + nat (i - ts) = nat i" using "1.prems" True by simp
      moreover have "nat ts \<le> length list" using "1.prems" True by simp
      ultimately have "drop (nat ts) list ! nat (i - ts) = ?x" by simp
      with take_Suc_conv_app_nth[OF l] show ?thesis unfolding n by simp
    qed
    have "LastUniquePaths_loop list ts i = LastUniquePaths_loop list' (ts + skip) (i - 1)"
      using True r by (subst LastUniquePaths_loop.simps) simp
    also have "\<dots> = remdups ?f @ ?x # drop (nat (i + 1)) list"
      unfolding ih tk dl ..
    also have "\<dots> = remdups (?seg @ [?x]) @ drop (nat (i + 1)) list"
      by (simp add: remdups_snoc)
    finally show ?thesis unfolding seg .
  qed
qed

lemma LastUniquePaths_remdups: "LastUniquePaths xs = remdups xs"
  using loop_last[of 0 "int (length xs) - 1" xs] by (simp add: LastUniquePaths_def)

lemma remdups_indices:
  "remdups xs = map ((!) xs) (filter (\<lambda>i. xs ! i \<notin> set (drop (Suc i) xs)) [0..<length xs])"
proof (induction xs)
  case Nil
  then show ?case by simp
next
  case (Cons x xs)
  have "[0..<length (x # xs)] = 0 # map Suc [0..<length xs]"
    by (simp add: upt_conv_Cons map_Suc_upt del: upt_Suc)
  then show ?case using Cons by (simp add: filter_map comp_def del: upt_Suc)
qed

lemma first_indices:
  "rev (remdups (rev xs)) =
   map ((!) xs) (filter (\<lambda>i. xs ! i \<notin> set (take i xs)) [0..<length xs])"
proof (induction xs rule: rev_induct)
  case Nil
  then show ?case by simp
next
  case (snoc x xs)
  have "filter (\<lambda>i. (xs @ [x]) ! i \<notin> set (take i (xs @ [x]))) [0..<length xs]
      = filter (\<lambda>i. xs ! i \<notin> set (take i xs)) [0..<length xs]"
    by (rule filter_cong) (auto simp: nth_append)
  moreover have "map ((!) (xs @ [x])) (filter (\<lambda>i. xs ! i \<notin> set (take i xs)) [0..<length xs])
      = map ((!) xs) (filter (\<lambda>i. xs ! i \<notin> set (take i xs)) [0..<length xs])"
    by (rule map_cong) (auto simp: nth_append)
  ultimately show ?case using snoc by simp
qed

lemma subseq_remdups: "subseq (remdups xs) xs"
  by (induction xs) auto

lemma subseq_first_occurrences: "subseq (first_occurrences kept xs) (kept @ xs)"
proof (induction xs arbitrary: kept)
  case Nil
  then show ?case by simp
next
  case (Cons x xs)
  show ?case
  proof (cases "x \<in> set kept")
    case True
    have "subseq (kept @ xs) (kept @ x # xs)"
      by (intro list_emb_append_mono) auto
    with Cons[of kept] True show ?thesis
      using subseq_order.order_trans by fastforce
  next
    case False
    with Cons[of "kept @ [x]"] show ?thesis by simp
  qed
qed

section \<open>Properties of the path constructors\<close>

lemma Clean_not_Nil: "Clean p \<noteq> []"
  by (simp add: Clean_def Let_def)

lemma Join_single: "Join [r] = (if r = [] then [] else Clean r)"
  by (simp add: Join_def)

lemma report_if_None [simp]: "report_if ctx None eff = Inr eff"
  by (simp add: report_if_def)

lemma and_then_Inr [simp]: "and_then (Inr x) f = f x"
  by (simp add: and_then_def)

lemma and_then_Inl [simp]: "and_then (Inl x) f = Inl x"
  by (simp add: and_then_def)

lemma sample_source_x:
  assumes "Config ctx = sample_config"
  shows "pathForSource ctx [''x''] = (\<lparr>path = ''x'', config = sample_config, rel = []\<rparr>, None)"
proof -
  have c: "Clean ''x'' = ''x''" by (simp add: Clean_def clean_elem_def)
  have v: "validatePath [''x''] = (''x'', None)"
    by (simp add: validatePath_def validateSafePath_def c HasPrefix_def Join_single)
  have j: "Join [''.'', ''x''] = ''x''" by (simp add: Join_def Clean_def clean_elem_def)
  show ?thesis
    by (simp add: pathForSource_def v assms SourcePath_String_def HasPrefix_def)
       (simp add: sample_config_def j)
qed

lemma sample_source_escape:
  assumes "Config ctx = sample_config"
  shows "pathForSource ctx [''../x''] =
     (\<lparr>path = [], config = sample_config, rel = []\<rparr>, Some (OutsideDirectory ''../x''))"
proof -
  have c: "Clean ''../x'' = ''../x''" by (simp add: Clean_def clean_elem_def)
  have v: "validatePath [''../x''] = ([], Some (OutsideDirectory ''../x''))"
    by (simp add: validatePath_def validateSafePath_def c HasPrefix_def)
  show ?thesis by (simp add: pathForSource_def v assms)
qed

lemma reportPathErrorf_module:
  "is_moduleErrorf ctx \<Longrightarrow>
   reportPathErrorf ctx e eff = Inr (eff\<lparr>moduleErrors := moduleErrors eff @ [e]\<rparr>)"
  by (simp add: reportPathErrorf_def)

lemma reportPathErrorf_context:
  "\<not> is_moduleErrorf ctx \<Longrightarrow> is_errorfContext ctx \<Longrightarrow>
   reportPathErrorf ctx e eff = Inr (eff\<lparr>contextErrors := contextErrors eff @ [e]\<rparr>)"
  by (simp add: reportPathErrorf_def)

lemma reportPathErrorf_panic:
  "\<not> is_moduleErrorf ctx \<Longrightarrow> \<not> is_errorfContext ctx \<Longrightarrow>
   reportPathErrorf ctx e eff = Inl (PanicError e)"
  by (simp add: reportPathErrorf_def)

lemma PathForSource_module:
  assumes m: "is_moduleErrorf ctx"
  shows "\<exists>eff'. PathForSource ctx comps eff = Inr (fst (pathForSource ctx comps), eff') \<and>
     prefix (moduleErrors eff) (moduleErrors eff') \<and> contextErrors eff' = contextErrors eff \<and>
     (\<forall>e. snd (pathForSource ctx comps) = Some e \<longrightarrow> e \<in> set (moduleErrors eff')) \<and>
     (IsGlob (SourcePath_String (fst (pathForSource ctx comps))) \<longrightarrow>
        ContainsGlob (SourcePath_String (fst (pathForSource ctx comps))) \<in> set (moduleErrors eff'))"
  by (cases "pathForSource ctx comps")
     (auto simp: PathForSource_def report_if_def reportPathError_def reportPathErrorf_module[OF m]
        existsWithDependencies_def Let_def
        split: option.splits prod.splits)

lemma PathForSource_context:
  assumes m: "\<not> is_moduleErrorf ctx" and c: "is_errorfContext ctx"
  shows "\<exists>eff'. PathForSource ctx comps eff = Inr (fst (pathForSource ctx comps), eff') \<and>
     prefix (contextErrors eff) (contextErrors eff') \<and> moduleErrors eff' = moduleErrors eff \<and>
     (\<forall>e. snd (pathForSource ctx comps) = Some e \<longrightarrow> e \<in> set (contextErrors eff')) \<and>
     (IsGlob (SourcePath_String (fst (pathForSource ctx comps))) \<longrightarrow>
        ContainsGlob (SourcePath_String (fst (pathForSource ctx comps))) \<in> set (contextErrors eff'))"
  by (cases "pathForSource ctx comps")
     (auto simp: PathForSource_def report_if_def reportPathError_def reportPathErrorf_context[OF m c]
        existsWithDependencies_def Let_def
        split: option.splits prod.splits)

lemma PathForSource_panic:
  assumes m: "\<not> is_moduleErrorf ctx" and c: "\<not> is_errorfContext ctx"
    and e: "snd (pathForSource ctx comps) = Some e"
  shows "PathForSource ctx comps eff = Inl (PanicError e)"
  using e
  by (cases "pathForSource ctx comps")
     (simp add: PathForSource_def report_if_def reportPathError_def reportPathErrorf_panic[OF m c])


lemma validatePath_ok_value:
  "snd (validatePath cs) = None \<Longrightarrow> validatePath cs = (Join cs, None)"
  using validatePath_ok_Join[of cs] by (simp add: prod_eq_iff)

lemma PathForOutput_ok:
  "snd (validatePath cs) = None \<Longrightarrow>
   PathForOutput ctx cs eff = Inr (\<lparr>path = Join cs, config = Config ctx, rel = []\<rparr>, eff)"
  by (simp add: PathForOutput_def validatePath_ok_value)

lemma PathForOutput_reporting:
  "is_moduleErrorf ctx \<or> is_errorfContext ctx \<Longrightarrow> \<exists>p eff'. PathForOutput ctx cs eff = Inr (p, eff')"
  by (cases "validatePath cs")
     (auto simp: PathForOutput_def report_if_def reportPathError_def reportPathErrorf_def
        split: option.splits)

lemma PathForModuleInstall_root:
  "PathForModuleInstall ctx comps eff = PathForOutput ctx (install_root ctx @ comps) eff"
  by (simp add: PathForModuleInstall_def install_root_def Let_def split: OsType.splits)

lemma reportPathErrorf_changes: "reportPathErrorf ctx e eff \<noteq> Inr eff"
proof
  assume a: "reportPathErrorf ctx e eff = Inr eff"
  show False
  proof (cases "is_moduleErrorf ctx")
    case True
    with a have "eff\<lparr>moduleErrors := moduleErrors eff @ [e]\<rparr> = eff"
      by (simp add: reportPathErrorf_def)
    then have "moduleErrors (eff\<lparr>moduleErrors := moduleErrors eff @ [e]\<rparr>) = moduleErrors eff"
      by simp
    then show False by simp
  next
    case False
    with a have c: "is_errorfContext ctx" and "eff\<lparr>contextErrors := contextErrors eff @ [e]\<rparr> = eff"
      by (auto simp: reportPathErrorf_def split: if_splits)
    then have "contextErrors (eff\<lparr>contextErrors := contextErrors eff @ [e]\<rparr>) = contextErrors eff"
      by simp
    then show False by simp
  qed
qed

lemma PathForOutput_quiet:
  assumes "PathForOutput ctx cs eff = Inr (p, eff)"
  shows "snd (validatePath cs) = None \<and> p = \<lparr>path = Join cs, config = Config ctx, rel = []\<rparr>"
proof (cases "snd (validatePath cs)")
  case None
  with assms show ?thesis by (simp add: PathForOutput_ok)
next
  case (Some e)
  then obtain q where v: "validatePath cs = (q, Some e)" by (cases "validatePath cs") auto
  from assms have "and_then (reportPathErrorf ctx e eff)
      (\<lambda>eff'. Inr (\<lparr>path = q, config = Config ctx, rel = []\<rparr>, eff')) = Inr (p, eff)"
    by (simp add: PathForOutput_def v report_if_def reportPathError_def)
  then have "reportPathErrorf ctx e eff = Inr eff"
    by (cases "reportPathErrorf ctx e eff") auto
  then show ?thesis using reportPathErrorf_changes by blast
qed

lemma path_elems_literals:
  "path_elems ''debug'' = [''debug'']" "path_elems ''target'' = [''target'']"
  "path_elems ''product'' = [''product'']" "path_elems ''host'' = [''host'']"
  "path_elems ''priv-app'' = [''priv-app'']" "path_elems ''app'' = [''app'']"
  "path_elems ''.intermediates'' = [''.intermediates'']"
  by (simp_all add: path_elems_def clean_elem_def)

lemma path_elems_dotdot_prefix:
  assumes "HasPrefix s ''../''"
  shows "''..'' \<in> set (path_elems s)"
proof -
  from assms obtain t where s: "s = ''..'' @ CHR ''/'' # t"
    by (cases s rule: list.exhaust; cases "tl s"; cases "tl (tl s)") (auto simp: HasPrefix_def)
  have "split_slash s = [''..''] @ split_slash t"
    unfolding s split_slash_append by simp
  then have "path_elems s = foldl (clean_elem False) [''..''] (split_slash t)"
    by (simp add: path_elems_def clean_elem_def)
  then show ?thesis using clean_fold_keeps_dotdot[of "[''..'']"] by simp
qed

lemma stays_inside_iff:
  "stays_inside p \<longleftrightarrow> \<not> HasPrefix p ''/'' \<and> ''..'' \<notin> set (path_elems p)"
proof
  assume "stays_inside p"
  then show "\<not> HasPrefix p ''/'' \<and> ''..'' \<notin> set (path_elems p)"
    using stays_inside_no_dotdot by (auto simp: stays_inside_def Clean_rooted)
next
  assume a: "\<not> HasPrefix p ''/'' \<and> ''..'' \<notin> set (path_elems p)"
  then have e: "path_elems (Clean p) = path_elems p" using path_elems_Clean by blast
  have "Clean p \<noteq> ''..''"
  proof
    assume "Clean p = ''..''"
    then have "''..'' \<in> set (path_elems (Clean p))" by (simp add: path_elems_def clean_elem_def)
    with e a show False by simp
  qed
  moreover have "\<not> HasPrefix (Clean p) ''../''"
    using path_elems_dotdot_prefix[of "Clean p"] e a by auto
  ultimately show "stays_inside p"
    using a by (simp add: stays_inside_def Clean_rooted)
qed

lemma stays_inside_Nil [simp]: "stays_inside []"
  by (simp add: stays_inside_iff HasPrefix_def)

lemma Join_not_rooted:
  assumes "\<forall>c\<in>set cs. \<not> HasPrefix c ''/''"
  shows "\<not> HasPrefix (Join cs) ''/''"
proof (cases "dropWhile (\<lambda>e. e = []) cs")
  case Nil
  show ?thesis unfolding Join_def Nil by (simp add: HasPrefix_def)
next
  case (Cons e es)
  have "e \<in> set cs" using set_dropWhileD[of e "\<lambda>e. e = []" cs] Cons by simp
  with assms have r: "\<not> HasPrefix e ''/''" by blast
  have e: "e \<noteq> []" using hd_dropWhile[of "\<lambda>e. e = []" cs] Cons by auto
  with r have "\<not> HasPrefix (join_slash (e # es)) ''/''"
    using hd_join_slash[of "e # es"] by (cases es) (auto simp: HasPrefix_slash)
  then show ?thesis by (simp add: Join_def Cons Clean_rooted)
qed

lemma stays_inside_Join:
  assumes "\<forall>c\<in>set cs. stays_inside c"
  shows "stays_inside (Join cs)"
proof -
  have "\<not> HasPrefix (Join cs) ''/''"
    using assms Join_not_rooted[of cs] by (simp add: stays_inside_iff)
  moreover have "''..'' \<notin> set (path_elems (Join cs))"
    using assms path_elems_Join[of cs] by (auto simp: stays_inside_iff)
  ultimately show ?thesis by (simp add: stays_inside_iff)
qed

lemma stays_inside_validatePath: "stays_inside (fst (validatePath cs))"
proof (cases "snd (validatePath cs)")
  case None
  then show ?thesis
    using validatePath_ok_iff[of cs] validatePath_ok_Join[of cs] stays_inside_Join[of cs] by simp
next
  case (Some e)
  then show ?thesis using validatePath_failed[of cs] by simp
qed

lemma plain_name_elems: "plain_name n \<Longrightarrow> path_elems n = [n]"
  by (simp add: plain_name_def path_elems_def split_slash_id clean_elem_def)

lemma plain_name_inside: "plain_name n \<Longrightarrow> stays_inside n"
  using plain_name_elems[of n]
  by (cases n) (auto simp: stays_inside_iff HasPrefix_def plain_name_def)

lemma clean_dir_render:
  assumes "clean_dir d"
  shows "d = (if path_elems d = [] then ''.'' else join_slash (path_elems d))"
proof -
  from assms have c: "Clean d = d" and i: "stays_inside d" by (simp_all add: clean_dir_def)
  from c have ne: "d \<noteq> []" using Clean_not_Nil[of d] by auto
  from i have "\<not> HasPrefix d ''/''" by (simp add: stays_inside_iff)
  with ne have "hd d \<noteq> CHR ''/''" by (simp add: HasPrefix_slash)
  with ne c show ?thesis using Clean_relative[of d] by simp
qed

lemma clean_dir_inj:
  "clean_dir d1 \<Longrightarrow> clean_dir d2 \<Longrightarrow> path_elems d1 = path_elems d2 \<Longrightarrow> d1 = d2"
  using clean_dir_render[of d1] clean_dir_render[of d2] by metis

lemma clean_fold_prefix_rooted:
  "''..'' \<notin> set (foldl (clean_elem False) [] es) \<Longrightarrow>
   foldl (clean_elem r) out es = out @ foldl (clean_elem False) [] es"
proof (induction es rule: rev_induct)
  case Nil
  then show ?case by simp
next
  case (snoc e es)
  let ?t = "foldl (clean_elem False) [] es"
  from snoc.prems have nd: "''..'' \<notin> set (clean_elem False ?t e)" by simp
  then have "''..'' \<notin> set ?t" using clean_elem_keeps_dotdot by blast
  with snoc.IH have ih: "foldl (clean_elem r) out es = out @ ?t" by simp
  have "clean_elem r (out @ ?t) e = out @ clean_elem False ?t e"
    using nd by (cases ?t rule: rev_cases) (auto simp: clean_elem_def butlast_append)
  with ih show ?case by simp
qed

lemma Clean_render:
  "p \<noteq> [] \<Longrightarrow>
   Clean p = render_path (hd p = CHR ''/'') (foldl (clean_elem (hd p = CHR ''/'')) [] (split_slash p))"
  unfolding Clean_def render_path_def Let_def
  by (cases "hd p = CHR ''/''") simp_all

lemma Clean_under:
  assumes "b \<noteq> []" and "stays_inside p"
  shows "Clean (b @ CHR ''/'' # p) =
     render_path (hd b = CHR ''/'')
       (foldl (clean_elem (hd b = CHR ''/'')) [] (split_slash b) @ path_elems p)"
proof -
  have nd: "''..'' \<notin> set (foldl (clean_elem False) [] (split_slash p))"
    using assms(2) stays_inside_no_dotdot by (simp add: path_elems_def)
  have h: "hd (b @ CHR ''/'' # p) = hd b" using assms(1) by simp
  have n: "b @ CHR ''/'' # p \<noteq> []" by simp
  let ?r = "hd b = CHR ''/''"
  have "foldl (clean_elem ?r) [] (split_slash (b @ CHR ''/'' # p)) =
      foldl (clean_elem ?r) (foldl (clean_elem ?r) [] (split_slash b)) (split_slash p)"
    by (simp only: split_slash_append foldl_append)
  also have "\<dots> = foldl (clean_elem ?r) [] (split_slash b) @ path_elems p"
    unfolding path_elems_def by (rule clean_fold_prefix_rooted[OF nd])
  finally have f: "foldl (clean_elem ?r) [] (split_slash (b @ CHR ''/'' # p)) =
      foldl (clean_elem ?r) [] (split_slash b) @ path_elems p" .
  have "Clean (b @ CHR ''/'' # p) =
      render_path (hd (b @ CHR ''/'' # p) = CHR ''/'')
        (foldl (clean_elem (hd (b @ CHR ''/'' # p) = CHR ''/'')) [] (split_slash (b @ CHR ''/'' # p)))"
    using n by (rule Clean_render)
  then have "Clean (b @ CHR ''/'' # p) =
      render_path ?r (foldl (clean_elem ?r) [] (split_slash (b @ CHR ''/'' # p)))"
    by (subst (asm) h, subst (asm) h)
  then show ?thesis by (subst (asm) f)
qed

lemma join_slash_inj:
  assumes "proper_elems xs" and "proper_elems ys" and "join_slash xs = join_slash ys"
  shows "xs = ys"
proof (cases "xs = []")
  case True
  with assms(3) have "join_slash ys = []" by simp
  with assms(2) True show ?thesis using join_slash_Nil_iff[of ys] by (auto simp: proper_elems_def)
next
  case False
  with assms(1,3) have "ys \<noteq> []"
    using join_slash_Nil_iff[of xs] by (auto simp: proper_elems_def)
  then have y: "split_slash (join_slash ys) = ys"
    using assms(2) by (intro split_join) (auto simp: proper_elems_def)
  have x: "split_slash (join_slash xs) = xs"
    using False assms(1) by (intro split_join) (auto simp: proper_elems_def)
  have "xs = split_slash (join_slash xs)" by (rule x[symmetric])
  also have "\<dots> = split_slash (join_slash ys)" by (simp only: assms(3))
  also have "\<dots> = ys" by (rule y)
  finally show ?thesis .
qed

lemma render_path_inj:
  assumes "proper_elems xs" and "proper_elems ys"
    and "render_path r xs = render_path r ys"
  shows "xs = ys"
proof (cases r)
  case True
  with assms(3) have "join_slash xs = join_slash ys" by (simp add: render_path_def)
  with assms(1,2) show ?thesis by (rule join_slash_inj)
next
  case False
  have dot: "join_slash zs \<noteq> ''.''" if "proper_elems zs" "zs \<noteq> []" for zs
  proof
    assume "join_slash zs = ''.''"
    then have "split_slash (join_slash zs) = [''.'']" by simp
    moreover have "split_slash (join_slash zs) = zs"
      using that by (intro split_join) (auto simp: proper_elems_def)
    ultimately have "''.'' \<in> set zs" by simp
    with that(1) show False by (auto simp: proper_elems_def)
  qed
  have nil: "join_slash zs = [] \<longleftrightarrow> zs = []" if "proper_elems zs" for zs
    using that join_slash_Nil_iff[of zs] by (auto simp: proper_elems_def)
  show ?thesis
  proof (cases "xs = []")
    case xe: True
    show ?thesis
    proof (cases "ys = []")
      case True
      with xe show ?thesis by simp
    next
      case ye: False
      with assms(2,3) False xe show ?thesis
        using dot[of ys] nil[of ys] by (simp add: render_path_def)
    qed
  next
    case xe: False
    show ?thesis
    proof (cases "ys = []")
      case True
      with assms(1,3) False xe show ?thesis
        using dot[of xs] nil[of xs] by (simp add: render_path_def)
    next
      case ye: False
      with xe assms False have "join_slash xs = join_slash ys"
        using nil[of xs] nil[of ys] by (simp add: render_path_def)
      with assms(1,2) show ?thesis by (rule join_slash_inj)
    qed
  qed
qed

lemma proper_path_elems: "stays_inside p \<Longrightarrow> proper_elems (path_elems p)"
  using path_elems_members[of _ p] by (auto simp: proper_elems_def)

lemma Join_under_inj:
  assumes a: "stays_inside a" and b: "stays_inside b"
    and ne: "path_elems a \<noteq> path_elems b"
  shows "Join [d, a] \<noteq> Join [d, b]"
proof (cases "d = []")
  case True
  have c: "Clean p = render_path False (path_elems p)" if "p \<noteq> []" "stays_inside p" for p
  proof -
    from that have "hd p \<noteq> CHR ''/''"
      by (simp add: stays_inside_iff HasPrefix_slash)
    with that(1) show ?thesis using Clean_render[of p] by (simp only: path_elems_def simp_thms)
  qed
  show ?thesis
  proof (cases "a = []")
    case ae: True
    with ne have "b \<noteq> []" by auto
    with True ae show ?thesis using Clean_not_Nil[of b] by (auto simp: Join_def)
  next
    case ae: False
    show ?thesis
    proof (cases "b = []")
      case True
      with \<open>d = []\<close> ae show ?thesis using Clean_not_Nil[of a] by (auto simp: Join_def)
    next
      case False
      have "render_path False (path_elems a) \<noteq> render_path False (path_elems b)"
        using render_path_inj[OF proper_path_elems[OF a] proper_path_elems[OF b]] ne by blast
      with ae False True show ?thesis using c[OF ae a] c[OF False b] by (simp add: Join_def)
    qed
  qed
next
  case False
  let ?r = "hd d = CHR ''/''"
  let ?s = "foldl (clean_elem ?r) [] (split_slash d)"
  have j: "Join [d, p] = Clean (d @ CHR ''/'' # p)" for p
    using False by (simp add: Join_def)
  have ps: "e \<noteq> [] \<and> e \<noteq> ''.'' \<and> CHR ''/'' \<notin> set e" if "e \<in> set ?s" for e
    using clean_fold_members[OF that] split_slash_nosl[of e d] by auto
  have pr: "proper_elems (?s @ path_elems p)" if "stays_inside p" for p
    using proper_path_elems[OF that] ps by (auto simp: proper_elems_def)
  have "?s @ path_elems a \<noteq> ?s @ path_elems b" using ne by simp
  then have "render_path ?r (?s @ path_elems a) \<noteq> render_path ?r (?s @ path_elems b)"
    using render_path_inj[OF pr[OF a] pr[OF b]] by blast
  then show ?thesis
    by (simp add: j Clean_under[OF False a] Clean_under[OF False b])
qed

lemma OutputPath_String_inj:
  "stays_inside (path a) \<Longrightarrow> stays_inside (path b) \<Longrightarrow> config a = config b \<Longrightarrow>
   path_elems (path a) \<noteq> path_elems (path b) \<Longrightarrow> OutputPath_String a \<noteq> OutputPath_String b"
  using Join_under_inj[of "path a" "path b" "buildDir (config a)"]
  by (simp add: OutputPath_String_def)


lemma pathForModule_root:
  assumes "clean_dir (ModuleDir ctx)" and "plain_name (ModuleName ctx)"
    and "ModuleSubDir ctx = [] \<or> plain_name (ModuleSubDir ctx)"
  shows "\<exists>r. (\<forall>eff. pathForModule ctx eff = Inr (r, eff)) \<and> stays_inside (path r) \<and>
     config r = Config ctx \<and>
     path_elems (path r) = ''.intermediates'' # path_elems (ModuleDir ctx) @
       ModuleName ctx # sub_elems (ModuleSubDir ctx)"
proof -
  let ?cs = "[''.intermediates'', ModuleDir ctx, ModuleName ctx, ModuleSubDir ctx]"
  have pi: "plain_name ''.intermediates''" by (simp add: plain_name_def)
  have i0: "stays_inside ''.intermediates''" using pi by (rule plain_name_inside)
  have i1: "stays_inside (ModuleDir ctx)" using assms(1) by (simp add: clean_dir_def)
  have i2: "stays_inside (ModuleName ctx)" using assms(2) by (rule plain_name_inside)
  have i3: "stays_inside (ModuleSubDir ctx)"
    using assms(3) plain_name_inside[of "ModuleSubDir ctx"] by auto
  have d0: "CHR ''$'' \<notin> set ''.intermediates''" by simp
  have d1: "CHR ''$'' \<notin> set (ModuleDir ctx)" using assms(1) by (simp add: clean_dir_def)
  have d2: "CHR ''$'' \<notin> set (ModuleName ctx)" using assms(2) by (simp add: plain_name_def)
  have d3: "CHR ''$'' \<notin> set (ModuleSubDir ctx)" using assms(3) by (auto simp: plain_name_def)
  have ok: "\<forall>c\<in>set ?cs. stays_inside c" using i0 i1 i2 i3 by simp
  have "\<forall>c\<in>set ?cs. CHR ''$'' \<notin> set c \<and> stays_inside c"
    using i0 i1 i2 i3 d0 d1 d2 d3 by simp
  then have v: "snd (validatePath ?cs) = None" by (simp only: validatePath_ok_iff)
  have se: "path_elems (ModuleSubDir ctx) = sub_elems (ModuleSubDir ctx)"
    using assms(3) plain_name_elems[of "ModuleSubDir ctx"] by (auto simp: sub_elems_def)
  have "path_elems (Join ?cs) = concat (map path_elems ?cs)"
    using ok by (rule path_elems_Join)
  then have e: "path_elems (Join ?cs) = ''.intermediates'' # path_elems (ModuleDir ctx) @
       ModuleName ctx # sub_elems (ModuleSubDir ctx)"
    by (simp add: plain_name_elems[OF assms(2)] plain_name_elems[OF pi] se)
  have s: "stays_inside (Join ?cs)" using ok by (rule stays_inside_Join)
  have "pathForModule ctx eff = Inr (\<lparr>path = Join ?cs, config = Config ctx, rel = []\<rparr>, eff)"
    for eff
    unfolding pathForModule_def using v by (rule PathForOutput_ok)
  with e s show ?thesis by simp
qed

lemma module_elems_inj:
  assumes "clean_dir d1" and "clean_dir d2"
    and "(s1 = []) = (s2 = [])"
    and "path_elems d1 @ n1 # sub_elems s1 = path_elems d2 @ n2 # sub_elems s2"
  shows "d1 = d2 \<and> n1 = n2 \<and> s1 = s2"
proof -
  have "length (n1 # sub_elems s1) = length (n2 # sub_elems s2)"
    using assms(3) by (simp add: sub_elems_def)
  with assms(4) have "path_elems d1 = path_elems d2 \<and> n1 # sub_elems s1 = n2 # sub_elems s2"
    by simp
  with assms(1,2,3) show ?thesis
    using clean_dir_inj[of d1 d2] by (auto simp: sub_elems_def split: if_splits)
qed

lemma PathForModuleOut_path:
  assumes r: "\<forall>eff. pathForModule ctx eff = Inr (r, eff)"
    and q: "PathForModuleOut ctx paths eff = Inr (q, f)"
  shows "path q = Join [path r, fst (validatePath paths)] \<and> config q = config r"
proof -
  obtain p err where v: "validatePath paths = (p, err)" by (cases "validatePath paths")
  show ?thesis
  proof (cases "report_if ctx err eff")
    case (Inl x)
    with q v show ?thesis by (simp add: PathForModuleOut_def)
  next
    case (Inr eff1)
    with q v r show ?thesis by (auto simp: PathForModuleOut_def withRel_def)
  qed
qed

lemma path_elems_Join2:
  "stays_inside a \<Longrightarrow> stays_inside b \<Longrightarrow> path_elems (Join [a, b]) = path_elems a @ path_elems b"
  using path_elems_Join[of "[a, b]"] by simp

lemma sample_module_root:
  "Join [''.intermediates'', ''a'', ''b'', ''c''] = ''.intermediates/a/b/c''"
  "Join [''.intermediates'', ''a/b'', ''c'', []] = ''.intermediates/a/b/c''"
  "Join [''.intermediates'', ''a'', ''b'', ''d''] = ''.intermediates/a/b/d''"
  by (simp_all add: Join_def Clean_def clean_elem_def)

lemma sample_validate:
  "validatePath [''.intermediates'', ''a'', ''b'', ''c''] = (''.intermediates/a/b/c'', None)"
  "validatePath [''.intermediates'', ''a/b'', ''c'', []] = (''.intermediates/a/b/c'', None)"
proof -
  have c: "Clean ''.intermediates'' = ''.intermediates''" "Clean ''a'' = ''a''" "Clean ''b'' = ''b''"
    "Clean ''c'' = ''c''" "Clean ''a/b'' = ''a/b''" "Clean [] = ''.''"
    by (simp_all add: Clean_def clean_elem_def)
  show "validatePath [''.intermediates'', ''a'', ''b'', ''c''] = (''.intermediates/a/b/c'', None)"
    "validatePath [''.intermediates'', ''a/b'', ''c'', []] = (''.intermediates/a/b/c'', None)"
    by (simp_all add: validatePath_def validateSafePath_def c HasPrefix_def sample_module_root)
qed

lemma validatePath_ok_append:
  "snd (validatePath (xs @ ys)) = None \<Longrightarrow> snd (validatePath xs) = None"
  by (simp add: validatePath_ok_iff)

lemma under_install_dir_iff:
  assumes p: "PathForModuleInstall ctx (c # cs) eff = Inr (p, eff)"
    and c: "path_elems c = e # es"
  shows "under_install_dir ctx eff d p \<longleftrightarrow> d = e"
proof -
  let ?r = "install_root ctx"
  from p have v: "snd (validatePath (?r @ c # cs)) = None"
    and pp: "p = \<lparr>path = Join (?r @ c # cs), config = Config ctx, rel = []\<rparr>"
    using PathForOutput_quiet[of ctx "?r @ c # cs" eff p]
    by (simp_all add: PathForModuleInstall_root)
  from v have vr: "snd (validatePath ?r) = None" by (rule validatePath_ok_append)
  have root: "PathForModuleInstall ctx [] eff
      = Inr (\<lparr>path = Join ?r, config = Config ctx, rel = []\<rparr>, eff)"
    using PathForOutput_ok[OF vr, of ctx eff] by (simp add: PathForModuleInstall_root)
  have er: "path_elems (Join ?r) = concat (map path_elems ?r)"
    using path_elems_validatePath[OF vr] validatePath_ok_Join[OF vr] by simp
  have ep: "path_elems (Join (?r @ c # cs)) =
      concat (map path_elems ?r) @ e # es @ concat (map path_elems cs)"
    using path_elems_validatePath[OF v] validatePath_ok_Join[OF v] c by simp
  show ?thesis
    by (simp add: under_install_dir_def root pp er ep)
qed

lemma path_elems_priv_app:
  assumes "stays_inside n"
  shows "path_elems (Join [''priv-app'', n]) = ''priv-app'' # path_elems n"
proof -
  have "stays_inside ''priv-app''"
    by (rule plain_name_inside) (simp add: plain_name_def)
  with assms show ?thesis by (simp add: path_elems_Join2 path_elems_literals)
qed

lemma sample_install_validate:
  "validatePath [''target'', ''product'', ''dev'', ''system'', ''priv-app'', ''b''] =
     (''target/product/dev/system/priv-app/b'', None)"
  "validatePath [''target'', ''product'', ''dev'', ''system'', ''framework''] =
     (''target/product/dev/system/framework'', None)"
proof -
  have c: "Clean ''target'' = ''target''" "Clean ''product'' = ''product''" "Clean ''dev'' = ''dev''"
    "Clean ''system'' = ''system''" "Clean ''priv-app'' = ''priv-app''" "Clean ''b'' = ''b''"
    "Clean ''framework'' = ''framework''"
    by (simp_all add: Clean_def clean_elem_def)
  have j: "Join [''target'', ''product'', ''dev'', ''system'', ''priv-app'', ''b''] =
      ''target/product/dev/system/priv-app/b''"
    "Join [''target'', ''product'', ''dev'', ''system'', ''framework''] =
      ''target/product/dev/system/framework''"
    by (simp_all add: Join_def Clean_def clean_elem_def)
  show "validatePath [''target'', ''product'', ''dev'', ''system'', ''priv-app'', ''b''] =
     (''target/product/dev/system/priv-app/b'', None)"
    "validatePath [''target'', ''product'', ''dev'', ''system'', ''framework''] =
     (''target/product/dev/system/framework'', None)"
    by (simp_all add: validatePath_def validateSafePath_def c j HasPrefix_def)
qed

lemma sample_install_root:
  assumes "Config ctx = sample_config" and "Device ctx" and "\<not> Debug ctx"
    and "modulePartition ctx = ''system''"
  shows "install_root ctx = [''target'', ''product'', ''dev'', ''system'']"
  using assms by (simp add: install_root_def sample_config_def)

lemma sample_partition: "modulePartition (sample_context\<lparr>ModuleName := n\<rparr>) = ''system''"
  by (simp add: modulePartition_def sample_context_def)




lemma PathForOutput_path:
  assumes "PathForOutput ctx cs eff = Inr (p, eff')"
  shows "p = \<lparr>path = fst (validatePath cs), config = Config ctx, rel = []\<rparr>"
proof -
  obtain q err where v: "validatePath cs = (q, err)" by (cases "validatePath cs")
  with assms show ?thesis
    by (cases "report_if ctx err eff") (auto simp: PathForOutput_def)
qed

lemma install_root_attributes:
  assumes "Config c2 = Config c1" "Os c2 = Os c1" "Device c2 = Device c1" "Debug c2 = Debug c1"
    "InstallInData c2 = InstallInData c1" "InstallInSanitizerDir c2 = InstallInSanitizerDir c1"
    "InstallInRecovery c2 = InstallInRecovery c1" "SocSpecific c2 = SocSpecific c1"
    "DeviceSpecific c2 = DeviceSpecific c1" "ProductSpecific c2 = ProductSpecific c1"
    "ProductServicesSpecific c2 = ProductServicesSpecific c1"
  shows "install_root c2 = install_root c1"
  using assms by (simp add: install_root_def modulePartition_def)

lemma PathForModuleInstall_attributes:
  assumes "Config c2 = Config c1 \<and> Os c2 = Os c1 \<and> Device c2 = Device c1 \<and> Debug c2 = Debug c1 \<and>
    InstallInData c2 = InstallInData c1 \<and> InstallInSanitizerDir c2 = InstallInSanitizerDir c1 \<and>
    InstallInRecovery c2 = InstallInRecovery c1 \<and> SocSpecific c2 = SocSpecific c1 \<and>
    DeviceSpecific c2 = DeviceSpecific c1 \<and> ProductSpecific c2 = ProductSpecific c1 \<and>
    ProductServicesSpecific c2 = ProductServicesSpecific c1"
    and "PathForModuleInstall c1 comps e1 = Inr (p1, f1)"
    and "PathForModuleInstall c2 comps e2 = Inr (p2, f2)"
  shows "p2 = p1"
proof -
  from assms(1) have r: "install_root c2 = install_root c1" and c: "Config c2 = Config c1"
    using install_root_attributes[of c2 c1] by simp_all
  from assms(2,3) show ?thesis
    using PathForOutput_path[of c1 "install_root c1 @ comps" e1 p1 f1]
      PathForOutput_path[of c2 "install_root c2 @ comps" e2 p2 f2]
    by (simp add: PathForModuleInstall_root r c)
qed

lemma and_then_InrD: "and_then r f = Inr y \<Longrightarrow> \<exists>x. r = Inr x \<and> f x = Inr y"
  by (cases r) simp_all

lemma PathForOutput_not_Failed:
  assumes "PathForOutput ctx cs eff = Inr (p, eff1)" and "\<not> Failed eff1"
  shows "snd (validatePath cs) = None \<and> eff1 = eff \<and>
         p = \<lparr>path = Join cs, config = Config ctx, rel = []\<rparr>"
proof (cases "snd (validatePath cs)")
  case None
  with assms(1) show ?thesis by (simp add: PathForOutput_ok)
next
  case (Some e)
  then obtain q where v: "validatePath cs = (q, Some e)" by (cases "validatePath cs") auto
  with assms show ?thesis
    by (auto simp: PathForOutput_def report_if_def reportPathError_def reportPathErrorf_def
        Failed_def split: if_splits)
qed

lemma under_install_dir_valid:
  assumes v: "snd (validatePath (install_root ctx @ c # cs)) = None"
    and c: "path_elems c = e # es"
    and pp: "path p = Join (install_root ctx @ c # cs)"
  shows "under_install_dir ctx eff d p \<longleftrightarrow> d = e"
proof -
  let ?r = "install_root ctx"
  from v have vr: "snd (validatePath ?r) = None" by (rule validatePath_ok_append)
  have root: "PathForModuleInstall ctx [] eff
      = Inr (\<lparr>path = Join ?r, config = Config ctx, rel = []\<rparr>, eff)"
    using PathForOutput_ok[OF vr, of ctx eff] by (simp add: PathForModuleInstall_root)
  have er: "path_elems (Join ?r) = concat (map path_elems ?r)"
    using path_elems_validatePath[OF vr] validatePath_ok_Join[OF vr] by simp
  have ep: "path_elems (Join (?r @ c # cs)) =
      concat (map path_elems ?r) @ e # es @ concat (map path_elems cs)"
    using path_elems_validatePath[OF v] validatePath_ok_Join[OF v] c by simp
  show ?thesis
    by (simp add: under_install_dir_def root pp er ep)
qed

lemma under_install_dir_empty: "path p = [] \<Longrightarrow> \<not> under_install_dir ctx eff d p"
  by (auto simp: under_install_dir_def path_elems_def clean_elem_def split: sum.splits)

lemma generateAndroidBuildActions_installs:
  assumes g: "generateAndroidBuildActions ovr others a ctx eff = Inr ((q, Some (dir, n)), eff')"
  shows "\<not> others \<and> \<not> Failed eff \<and>
     dexBuildActions_installPath (a\<lparr>installApkName := ovr (ModuleName ctx)\<rparr>) ctx eff = Inr (q, eff) \<and>
     (\<exists>eff3. (if ModuleName ctx = ''framework-res''
        then PathForModuleInstall ctx [''framework''] eff3 = Inr (dir, eff') \<and>
             n = ModuleName ctx @ ''.apk''
        else PathForModuleInstall ctx
               [if proptools_Bool (Privileged (appProperties a)) then ''priv-app'' else ''app'',
                ovr (ModuleName ctx)] eff3 = Inr (dir, eff') \<and>
             n = ovr (ModuleName ctx) @ ''.apk''))"
proof -
  let ?a = "a\<lparr>installApkName := ovr (ModuleName ctx)\<rparr>"
  from g obtain x where x: "dexBuildActions_installPath ?a ctx eff = Inr x"
    and r: "(case x of (installPath, eff1) \<Rightarrow>
        if Failed eff1 \<or> others then Inr ((installPath, None), eff1)
        else
          and_then (PathForModuleOut ctx [ModuleName ctx @ ''.apk''] eff1) (\<lambda>(packageFile, eff2).
          and_then (PathForModuleOut ctx [''base.zip''] eff2) (\<lambda>(bundleFile, eff3).
            if ModuleName ctx = ''framework-res'' then
              and_then (PathForModuleInstall ctx [''framework''] eff3) (\<lambda>(dir, eff4).
                Inr ((installPath, Some (dir, ModuleName ctx @ ''.apk'')), eff4))
            else if proptools_Bool (Privileged (appProperties ?a)) then
              and_then (PathForModuleInstall ctx [''priv-app'', installApkName ?a] eff3)
                (\<lambda>(dir, eff4). Inr ((installPath, Some (dir, installApkName ?a @ ''.apk'')), eff4))
            else
              and_then (PathForModuleInstall ctx [''app'', installApkName ?a] eff3)
                (\<lambda>(dir, eff4). Inr ((installPath, Some (dir, installApkName ?a @ ''.apk'')), eff4)))))
      = Inr ((q, Some (dir, n)), eff')"
    unfolding generateAndroidBuildActions_def Let_def by (blast dest: and_then_InrD)
  obtain q' eff1 where xx: "x = (q', eff1)" by (cases x)
  from r xx have nf: "\<not> Failed eff1" and no: "\<not> others" by (auto split: if_splits)
  from x xx obtain cs where d: "PathForOutput ctx cs eff = Inr (q', eff1)"
    by (simp add: dexBuildActions_installPath_def PathForModuleInstall_root Let_def)
  from PathForOutput_not_Failed[OF d nf] have e1: "eff1 = eff" by simp
  from r xx nf no obtain y :: "OutputPath \<times> effects" where "(case y of (packageFile, eff2) \<Rightarrow>
          and_then (PathForModuleOut ctx [''base.zip''] eff2) (\<lambda>(bundleFile, eff3).
            if ModuleName ctx = ''framework-res'' then
              and_then (PathForModuleInstall ctx [''framework''] eff3) (\<lambda>(dir, eff4).
                Inr ((q', Some (dir, ModuleName ctx @ ''.apk'')), eff4))
            else if proptools_Bool (Privileged (appProperties ?a)) then
              and_then (PathForModuleInstall ctx [''priv-app'', installApkName ?a] eff3)
                (\<lambda>(dir, eff4). Inr ((q', Some (dir, installApkName ?a @ ''.apk'')), eff4))
            else
              and_then (PathForModuleInstall ctx [''app'', installApkName ?a] eff3)
                (\<lambda>(dir, eff4). Inr ((q', Some (dir, installApkName ?a @ ''.apk'')), eff4))))
      = Inr ((q, Some (dir, n)), eff')"
    by (auto dest: and_then_InrD)
  then obtain z :: "OutputPath \<times> effects" where z: "(case z of (bundleFile, eff3) \<Rightarrow>
            if ModuleName ctx = ''framework-res'' then
              and_then (PathForModuleInstall ctx [''framework''] eff3) (\<lambda>(dir, eff4).
                Inr ((q', Some (dir, ModuleName ctx @ ''.apk'')), eff4))
            else if proptools_Bool (Privileged (appProperties ?a)) then
              and_then (PathForModuleInstall ctx [''priv-app'', installApkName ?a] eff3)
                (\<lambda>(dir, eff4). Inr ((q', Some (dir, installApkName ?a @ ''.apk'')), eff4))
            else
              and_then (PathForModuleInstall ctx [''app'', installApkName ?a] eff3)
                (\<lambda>(dir, eff4). Inr ((q', Some (dir, installApkName ?a @ ''.apk'')), eff4)))
      = Inr ((q, Some (dir, n)), eff')"
    by (cases y) (auto dest: and_then_InrD)
  obtain b eff3 where zz: "z = (b, eff3)" by (cases z)
  have i: "q' = q \<and> (if ModuleName ctx = ''framework-res''
        then PathForModuleInstall ctx [''framework''] eff3 = Inr (dir, eff') \<and>
             n = ModuleName ctx @ ''.apk''
        else PathForModuleInstall ctx
               [if proptools_Bool (Privileged (appProperties a)) then ''priv-app'' else ''app'',
                ovr (ModuleName ctx)] eff3 = Inr (dir, eff') \<and>
             n = ovr (ModuleName ctx) @ ''.apk'')"
    using z zz by (auto dest!: and_then_InrD split: if_splits)
  from nf e1 have "\<not> Failed eff" by simp
  with no x xx e1 i show ?thesis by auto
qed


lemma install_dir_after_dex:
  assumes d: "PathForModuleInstall ctx [c1, n0 @ ''.apk''] eff = Inr (q, eff)"
    and i: "PathForModuleInstall ctx [d0, n0] eff3 = Inr (dir, eff')"
    and p: "plain_name d0"
  shows "(\<forall>d. under_install_dir ctx eff d dir \<longrightarrow> d = d0) \<and>
         (\<not> Failed eff' \<or> stays_inside n0 \<longrightarrow> under_install_dir ctx eff d0 dir)"
proof -
  let ?r = "install_root ctx"
  from d have vd: "snd (validatePath (?r @ [c1, n0 @ ''.apk''])) = None"
    using PathForOutput_quiet[of ctx "?r @ [c1, n0 @ ''.apk'']" eff q]
    by (simp add: PathForModuleInstall_root)
  then have r: "\<forall>c\<in>set ?r. CHR ''$'' \<notin> set c \<and> stays_inside c" and n: "CHR ''$'' \<notin> set n0"
    by (simp_all add: validatePath_ok_iff)
  have p0: "CHR ''$'' \<notin> set d0 \<and> stays_inside d0"
    using p plain_name_inside[OF p] by (simp add: plain_name_def)
  have v: "snd (validatePath (?r @ [d0, n0])) = None \<longleftrightarrow> stays_inside n0"
    using r n p0 by (auto simp: validatePath_ok_iff)
  from i have io: "PathForOutput ctx (?r @ [d0, n0]) eff3 = Inr (dir, eff')"
    by (simp add: PathForModuleInstall_root)
  have pd: "path dir = fst (validatePath (?r @ [d0, n0]))"
    using PathForOutput_path[OF io] by simp
  show ?thesis
  proof (cases "stays_inside n0")
    case True
    with v have ok: "snd (validatePath (?r @ d0 # [n0])) = None" by simp
    with pd have "path dir = Join (?r @ d0 # [n0])" by (simp add: validatePath_ok_Join)
    from under_install_dir_valid[OF ok plain_name_elems[OF p] this]
    show ?thesis by simp
  next
    case False
    with v have "snd (validatePath (?r @ [d0, n0])) \<noteq> None" by simp
    with pd have "path dir = []" by (simp add: validatePath_failed)
    then have "\<not> under_install_dir ctx eff d dir" for d by (rule under_install_dir_empty)
    moreover have "Failed eff'"
      using PathForOutput_not_Failed[OF io] v False by blast
    ultimately show ?thesis using False by simp
  qed
qed

lemma install_dir_framework:
  assumes d: "PathForModuleInstall ctx [''framework'', n1] eff = Inr (q, eff)"
    and i: "PathForModuleInstall ctx [''framework''] eff3 = Inr (dir, eff')"
  shows "under_install_dir ctx eff d dir \<longleftrightarrow> d = ''framework''"
proof -
  let ?r = "install_root ctx"
  from d have vd: "snd (validatePath (?r @ [''framework'', n1])) = None"
    using PathForOutput_quiet[of ctx "?r @ [''framework'', n1]" eff q]
    by (simp add: PathForModuleInstall_root)
  then have ok: "snd (validatePath (?r @ ''framework'' # [])) = None"
    by (simp add: validatePath_ok_iff)
  from i have io: "PathForOutput ctx (?r @ [''framework'']) eff3 = Inr (dir, eff')"
    by (simp add: PathForModuleInstall_root)
  have pd: "path dir = Join (?r @ ''framework'' # [])"
    using PathForOutput_path[OF io] ok by (simp add: validatePath_ok_Join)
  have e: "path_elems ''framework'' = [''framework'']"
    by (simp add: path_elems_def clean_elem_def)
  from under_install_dir_valid[OF ok e pd] show ?thesis .
qed

lemma validatePath_plain: "\<forall>c\<in>set cs. plain_name c \<Longrightarrow> snd (validatePath cs) = None"
  using plain_name_inside by (auto simp: validatePath_ok_iff plain_name_def)

lemma PathForModuleOut_ok:
  assumes "snd (validatePath paths) = None"
    and "snd (validatePath [''.intermediates'', ModuleDir ctx, ModuleName ctx, ModuleSubDir ctx]) = None"
  shows "PathForModuleOut ctx paths eff =
     Inr (withRel \<lparr>path = Join [''.intermediates'', ModuleDir ctx, ModuleName ctx, ModuleSubDir ctx],
                   config = Config ctx, rel = []\<rparr> (Join paths), eff)"
  using assms
  by (simp add: PathForModuleOut_def validatePath_ok_value pathForModule_def PathForOutput_ok)

lemma sample_dex_validate:
  "validatePath [''target'', ''product'', ''dev'', ''system'', Join [''priv-app'', ''b''], ''b.apk''] =
     (''target/product/dev/system/priv-app/b/b.apk'', None)"
  "validatePath [''target'', ''product'', ''dev'', ''system'', ''framework'', ''framework-res.apk''] =
     (''target/product/dev/system/framework/framework-res.apk'', None)"
proof -
  have p: "Join [''priv-app'', ''b''] = ''priv-app/b''" by (simp add: Join_def Clean_def clean_elem_def)
  have c: "Clean ''target'' = ''target''" "Clean ''product'' = ''product''" "Clean ''dev'' = ''dev''"
    "Clean ''system'' = ''system''" "Clean ''priv-app/b'' = ''priv-app/b''" "Clean ''b.apk'' = ''b.apk''"
    "Clean ''framework'' = ''framework''" "Clean ''framework-res.apk'' = ''framework-res.apk''"
    by (simp_all add: Clean_def clean_elem_def)
  have j: "Join [''target'', ''product'', ''dev'', ''system'', ''priv-app/b'', ''b.apk''] =
      ''target/product/dev/system/priv-app/b/b.apk''"
    "Join [''target'', ''product'', ''dev'', ''system'', ''framework'', ''framework-res.apk''] =
      ''target/product/dev/system/framework/framework-res.apk''"
    by (simp_all add: Join_def Clean_def clean_elem_def)
  show "validatePath [''target'', ''product'', ''dev'', ''system'', Join [''priv-app'', ''b''], ''b.apk''] =
     (''target/product/dev/system/priv-app/b/b.apk'', None)"
    "validatePath [''target'', ''product'', ''dev'', ''system'', ''framework'', ''framework-res.apk''] =
     (''target/product/dev/system/framework/framework-res.apk'', None)"
    by (simp_all add: p validatePath_def validateSafePath_def c j HasPrefix_def)
qed

lemma sample_module_out:
  assumes "plain_name n" and "plain_name f"
  shows "\<exists>p. PathForModuleOut (sample_context\<lparr>ModuleName := n\<rparr>) [f] no_effects = Inr (p, no_effects)"
proof -
  have c: "Clean ''a'' = ''a''" by (simp add: Clean_def clean_elem_def)
  have a: "stays_inside ''a''" by (simp add: stays_inside_def c HasPrefix_def)
  have m: "ModuleDir (sample_context\<lparr>ModuleName := n\<rparr>) = ''a''"
    "ModuleSubDir (sample_context\<lparr>ModuleName := n\<rparr>) = ''c''"
    by (simp_all add: sample_context_def)
  have i: "stays_inside ''.intermediates''" "stays_inside ''c''"
    by (rule plain_name_inside, simp add: plain_name_def)+
  have 1: "snd (validatePath [f]) = None" using assms(2) by (simp add: validatePath_plain)
  have 2: "snd (validatePath [''.intermediates'', ModuleDir (sample_context\<lparr>ModuleName := n\<rparr>),
      ModuleName (sample_context\<lparr>ModuleName := n\<rparr>),
      ModuleSubDir (sample_context\<lparr>ModuleName := n\<rparr>)]) = None"
    using assms(1) plain_name_inside[OF assms(1)] a i
    by (simp add: validatePath_ok_iff m plain_name_def)
  from PathForModuleOut_ok[OF 1 2] show ?thesis by blast
qed

lemma sample_early_return:
  "generateAndroidBuildActions (\<lambda>n. n) False (sample_app ''b'')
       (sample_context\<lparr>ModuleName := ''b$''\<rparr>) no_effects =
     Inr ((\<lparr>path = [], config = sample_config, rel = []\<rparr>, None),
          no_effects\<lparr>moduleErrors := [InvalidCharacter ''priv-app/b$'']\<rparr>)"
proof -
  let ?ctx = "sample_context\<lparr>ModuleName := ''b$''\<rparr>"
  have r: "install_root ?ctx = [''target'', ''product'', ''dev'', ''system'']"
    by (rule sample_install_root) (simp_all add: sample_partition, simp_all add: sample_context_def)
  have c: "Config ?ctx = sample_config" "is_moduleErrorf ?ctx" by (simp_all add: sample_context_def)
  have p: "Join [''priv-app'', ''b$''] = ''priv-app/b$''" by (simp add: Join_def Clean_def clean_elem_def)
  have v: "validatePath [''target'', ''product'', ''dev'', ''system'', ''priv-app/b$'', ''b$.apk''] =
     ([], Some (InvalidCharacter ''priv-app/b$''))"
    by (simp add: validatePath_def)
  have d: "dexBuildActions_installPath (sample_app ''b''\<lparr>installApkName := ''b$''\<rparr>) ?ctx no_effects =
      Inr (\<lparr>path = [], config = sample_config, rel = []\<rparr>,
           no_effects\<lparr>moduleErrors := [InvalidCharacter ''priv-app/b$'']\<rparr>)"
    by (simp add: dexBuildActions_installPath_def sample_app_def proptools_Bool_def
        PathForModuleInstall_root r PathForOutput_def p v c report_if_def reportPathError_def
        reportPathErrorf_def no_effects_def)
  have f: "Failed (no_effects\<lparr>moduleErrors := [InvalidCharacter ''priv-app/b$'']\<rparr>)"
    by (simp add: Failed_def)
  show ?thesis
    by (simp add: generateAndroidBuildActions_def Let_def d f)
qed

lemma append_eq_prefix: "xs @ us = ys @ vs \<Longrightarrow> prefix xs ys \<or> prefix ys xs"
  by (auto simp: append_eq_append_conv2 prefix_def)

lemma PathForModuleOut_returns:
  assumes "clean_dir (ModuleDir ctx)" and "plain_name (ModuleName ctx)"
    and "ModuleSubDir ctx = [] \<or> plain_name (ModuleSubDir ctx)"
    and "snd (validatePath paths) = None"
  shows "\<exists>q. PathForModuleOut ctx paths eff = Inr (q, eff)"
proof -
  obtain r where "\<forall>eff. pathForModule ctx eff = Inr (r, eff)"
    using pathForModule_root[OF assms(1,2,3)] by blast
  with assms(4) show ?thesis
    by (simp add: PathForModuleOut_def validatePath_ok_value)
qed

lemma sample_module_dir_elems:
  assumes "ModuleDir ctx = ''a''" and "ModuleName ctx = ''b''" and "ModuleSubDir ctx = s" and "s \<noteq> []"
  shows "module_dir_elems ctx = [''a'', ''b'', s]"
  using assms by (simp add: module_dir_elems_def sub_elems_def path_elems_def clean_elem_def)






section \<open>OptionalPath\<close>

text \<open>
  Claim C10. For every \<^verbatim>\<open>OptionalPath\<close>, \<^verbatim>\<open>Path()\<close> returns the path it holds exactly when
  \<^verbatim>\<open>Valid()\<close> is true and panics otherwise; \<^verbatim>\<open>OptionalPathForPath\<close> gives an invalid
  value for a nil path and a valid one that holds the path otherwise; \<^verbatim>\<open>String()\<close> is the
  empty string on every invalid value.
\<close>

theorem OptionalPath_valid_or_panic:
  "((\<exists>x. OptionalPath_Path p = Inr x) \<longleftrightarrow> Valid p) \<and>
   (Valid p \<longrightarrow> OptionalPath_Path p = Inr (opath p)) \<and>
   (\<not> Valid p \<longrightarrow> OptionalPath_Path p = Inl PanicInvalidPath) \<and>
   \<not> Valid (OptionalPathForPath None) \<and>
   Valid (OptionalPathForPath (Some q)) \<and>
   OptionalPath_Path (OptionalPathForPath (Some q)) = Inr (Some q) \<and>
   (\<not> Valid p \<longrightarrow> OptionalPath_String p = Inr [])"
  by (simp add: OptionalPath_Path_def Valid_def OptionalPathForPath_def OptionalPath_empty_def
      OptionalPath_String_def)

theorem OptionalPath_valid_or_panic_witness:
  "Valid \<lparr>valid = True, opath = Some (OutputPath \<lparr>path = ''x'', config = sample_config, rel = []\<rparr>)\<rparr> \<and>
   OptionalPath_Path \<lparr>valid = True, opath = Some (OutputPath \<lparr>path = ''x'', config = sample_config, rel = []\<rparr>)\<rparr>
     = Inr (Some (OutputPath \<lparr>path = ''x'', config = sample_config, rel = []\<rparr>)) \<and>
   \<not> Valid OptionalPath_empty \<and>
   OptionalPath_Path OptionalPath_empty = Inl PanicInvalidPath \<and>
   OptionalPath_String OptionalPath_empty = Inr []"
  using OptionalPath_valid_or_panic
    [of "\<lparr>valid = True, opath = Some (OutputPath \<lparr>path = ''x'', config = sample_config, rel = []\<rparr>)\<rparr>"]
    OptionalPath_valid_or_panic [of OptionalPath_empty]
  by (simp add: Valid_def OptionalPath_empty_def)

section \<open>Claims about lists of paths\<close>

text \<open>
  Claim C4. \<^verbatim>\<open>FirstUniquePaths\<close> and \<^verbatim>\<open>LastUniquePaths\<close> are idempotent, and each keeps
  the elements in the order they have in the list it is given: the result is a
  subsequence of the list, made of the first (respectively the last) occurrence of every
  element, that is, of the elements at the indices \<open>i\<close> whose element does not occur
  before \<open>i\<close> (respectively after \<open>i\<close>).
\<close>

theorem unique_paths_idempotent_ordered:
  "FirstUniquePaths (FirstUniquePaths xs) = FirstUniquePaths xs \<and>
   LastUniquePaths (LastUniquePaths xs) = LastUniquePaths xs \<and>
   subseq (FirstUniquePaths xs) xs \<and>
   subseq (LastUniquePaths xs) xs \<and>
   FirstUniquePaths xs =
     map ((!) xs) (filter (\<lambda>i. xs ! i \<notin> set (take i xs)) [0..<length xs]) \<and>
   LastUniquePaths xs =
     map ((!) xs) (filter (\<lambda>i. xs ! i \<notin> set (drop (Suc i) xs)) [0..<length xs]) \<and>
   distinct (FirstUniquePaths xs) \<and> set (FirstUniquePaths xs) = set xs \<and>
   distinct (LastUniquePaths xs) \<and> set (LastUniquePaths xs) = set xs"
proof -
  have "FirstUniquePaths (FirstUniquePaths xs) = FirstUniquePaths xs"
    by (simp add: FirstUniquePaths_remdups remdups_remdups)
  moreover have "LastUniquePaths (LastUniquePaths xs) = LastUniquePaths xs"
    by (simp add: LastUniquePaths_remdups remdups_remdups)
  moreover have "subseq (FirstUniquePaths xs) xs"
    using subseq_first_occurrences[of "[]" xs] loop_first[of 0 0 xs]
    by (simp add: FirstUniquePaths_def)
  moreover have "subseq (LastUniquePaths xs) xs"
    by (simp add: LastUniquePaths_remdups subseq_remdups)
  moreover have "FirstUniquePaths xs =
      map ((!) xs) (filter (\<lambda>i. xs ! i \<notin> set (take i xs)) [0..<length xs])"
    by (simp only: FirstUniquePaths_remdups first_indices)
  moreover have "LastUniquePaths xs =
      map ((!) xs) (filter (\<lambda>i. xs ! i \<notin> set (drop (Suc i) xs)) [0..<length xs])"
    by (simp only: LastUniquePaths_remdups remdups_indices)
  moreover have "distinct (FirstUniquePaths xs) \<and> set (FirstUniquePaths xs) = set xs"
    by (simp add: FirstUniquePaths_remdups)
  moreover have "distinct (LastUniquePaths xs) \<and> set (LastUniquePaths xs) = set xs"
    by (simp add: LastUniquePaths_remdups)
  ultimately show ?thesis by blast
qed

theorem unique_paths_idempotent_ordered_witness:
  "FirstUniquePaths [1, 2, 1 :: nat] = [1, 2] \<and> LastUniquePaths [1, 2, 1 :: nat] = [2, 1] \<and>
   FirstUniquePaths (FirstUniquePaths [1, 2, 1 :: nat]) = [1, 2] \<and>
   LastUniquePaths (LastUniquePaths [1, 2, 1 :: nat]) = [2, 1]"
proof -
  have u: "[0..<3] = [0, 1, 2]" by (simp add: upt_rec)
  note t = unique_paths_idempotent_ordered[of "[1, 2, 1 :: nat]"]
  have f: "FirstUniquePaths [1, 2, 1 :: nat] = [1, 2]" using t by (simp add: u)
  have l: "LastUniquePaths [1, 2, 1 :: nat] = [2, 1]" using t by (simp add: u)
  from t have "FirstUniquePaths (FirstUniquePaths [1, 2, 1 :: nat]) = FirstUniquePaths [1, 2, 1]"
    and "LastUniquePaths (LastUniquePaths [1, 2, 1 :: nat]) = LastUniquePaths [1, 2, 1]"
    by blast+
  with f l show ?thesis by simp
qed

section \<open>Claims about validation\<close>

text \<open>
  Claim C2. For every list of path components, \<^verbatim>\<open>validatePath\<close> returns an error (and
  the empty path) whenever a component holds a \<^verbatim>\<open>$\<close>, is absolute, or has a cleaned form
  that is \<^verbatim>\<open>..\<close> or starts with \<^verbatim>\<open>../\<close>; otherwise it returns, with no error, the
  components joined by \<^verbatim>\<open>filepath.Join\<close>, which cleans the result.
\<close>

theorem validatePath_rejects_escapes:
  "(snd (validatePath cs) \<noteq> None \<longleftrightarrow>
      (\<exists>c\<in>set cs. CHR ''$'' \<in> set c \<or> IsAbs c \<or> Clean c = ''..'' \<or> HasPrefix (Clean c) ''../'')) \<and>
   (snd (validatePath cs) \<noteq> None \<longrightarrow> fst (validatePath cs) = []) \<and>
   (snd (validatePath cs) = None \<longrightarrow> fst (validatePath cs) = Join cs)"
  using validatePath_ok_iff[of cs] validatePath_ok_Join[of cs] validatePath_failed[of cs]
  by (auto simp: stays_inside_def IsAbs_def Clean_rooted)

theorem validatePath_rejects_escapes_witness:
  "snd (validatePath [''a'', ''b/../../c'']) \<noteq> None \<and> fst (validatePath [''a'', ''b/../../c'']) = [] \<and>
   snd (validatePath [''a'', ''$b'']) \<noteq> None \<and>
   snd (validatePath [''a'', ''/b'']) \<noteq> None \<and>
   validatePath [''a/./b'', ''c''] = (''a/b/c'', None)"
proof -
  have 1: "Clean ''b/../../c'' = ''../c''" by (simp add: Clean_def clean_elem_def)
  have 2: "Join [''a/./b'', ''c''] = ''a/b/c''" by (simp add: Join_def Clean_def clean_elem_def)
  have 3: "Clean ''a/./b'' = ''a/b''" "Clean ''c'' = ''c''" by (simp_all add: Clean_def clean_elem_def)
  have 4: "snd (validatePath [''a/./b'', ''c'']) = None \<and> fst (validatePath [''a/./b'', ''c'']) = ''a/b/c''"
    using validatePath_rejects_escapes[of "[''a/./b'', ''c'']"]
    by (simp add: 2 3 IsAbs_def HasPrefix_def)
  show ?thesis
    using validatePath_rejects_escapes[of "[''a'', ''b/../../c'']"]
      validatePath_rejects_escapes[of "[''a'', ''$b'']"]
      validatePath_rejects_escapes[of "[''a'', ''/b'']"] 4
    by (simp add: 1 IsAbs_def HasPrefix_def prod_eq_iff)
qed

section \<open>Claims about joining and re-rooting\<close>

text \<open>
  Claim C5, amended. For every path \<open>p\<close>, whatever its root, and every component \<open>r\<close>
  that \<^verbatim>\<open>validatePath\<close> accepts, \<^verbatim>\<open>OutputPath.Join\<close> and \<^verbatim>\<open>SourcePath.Join\<close> report
  nothing and return \<open>p\<close> re-rooted with \<^verbatim>\<open>withRel\<close>, and \<^verbatim>\<open>Rel()\<close> of the result is the
  cleaned form of \<open>r\<close>: exactly \<open>r\<close> when \<open>r\<close> is not empty and already clean. For the
  empty component \<^verbatim>\<open>Rel()\<close> falls back to the joined path.
\<close>

theorem join_then_rel:
  assumes "snd (validatePath [r]) = None"
  shows "OutputPath_Join p ctx [r] eff = Inr (withRel p (Join [r]), eff) \<and>
         SourcePath_Join p ctx [r] eff = Inr (withRel p (Join [r]), eff) \<and>
         basePath_Rel (withRel p (Join [r])) = (if r = [] then Join [path p, []] else Clean r) \<and>
         (r \<noteq> [] \<and> Clean r = r \<longrightarrow> basePath_Rel (withRel p (Join [r])) = r)"
proof -
  from assms have v: "validatePath [r] = (Join [r], None)"
    using validatePath_ok_Join[of "[r]"] by (simp add: prod_eq_iff)
  show ?thesis
    by (simp add: OutputPath_Join_def SourcePath_Join_def v basePath_Rel_def withRel_def
        Join_single Clean_not_Nil)
qed

theorem join_then_rel_witness:
  "OutputPath_Join \<lparr>path = ''o'', config = sample_config, rel = []\<rparr> sample_context [''a/b''] no_effects =
     Inr (\<lparr>path = ''o/a/b'', config = sample_config, rel = ''a/b''\<rparr>, no_effects) \<and>
   basePath_Rel \<lparr>path = ''o/a/b'', config = sample_config, rel = ''a/b''\<rparr> = ''a/b''"
proof -
  have c: "Clean ''a/b'' = ''a/b''" by (simp add: Clean_def clean_elem_def)
  have v: "snd (validatePath [''a/b'']) = None"
    by (simp add: validatePath_def validateSafePath_def c HasPrefix_def)
  have j: "Join [''o'', ''a/b''] = ''o/a/b''" by (simp add: Join_def Clean_def clean_elem_def)
  show ?thesis
    using join_then_rel[OF v, of "\<lparr>path = ''o'', config = sample_config, rel = []\<rparr>" sample_context no_effects]
    by (simp add: withRel_def Join_single c j)
qed

text \<open>
  The claim as stated (\<^verbatim>\<open>Rel()\<close> returns exactly \<open>r\<close>) fails for the valid component
  \<^verbatim>\<open>a/./b\<close>: \<^verbatim>\<open>Rel()\<close> is \<^verbatim>\<open>a/b\<close>.
\<close>

theorem join_then_rel_counterexample:
  "snd (validatePath [''a/./b'']) = None \<and>
   OutputPath_Join \<lparr>path = ''o'', config = sample_config, rel = []\<rparr> sample_context [''a/./b''] no_effects
     = Inr (\<lparr>path = ''o/a/b'', config = sample_config, rel = ''a/b''\<rparr>, no_effects) \<and>
   basePath_Rel \<lparr>path = ''o/a/b'', config = sample_config, rel = ''a/b''\<rparr> \<noteq> ''a/./b''"
proof -
  have c: "Clean ''a/./b'' = ''a/b''" by (simp add: Clean_def clean_elem_def)
  have v: "validatePath [''a/./b''] = (''a/b'', None)"
    by (simp add: validatePath_def validateSafePath_def c HasPrefix_def Join_single)
  have j: "Join [''o'', ''a/b''] = ''o/a/b''" by (simp add: Join_def Clean_def clean_elem_def)
  show ?thesis
    by (simp add: v OutputPath_Join_def basePath_Rel_def withRel_def j)
qed


section \<open>Claims about source paths\<close>

text \<open>
  Claim C6. For every valid source path (\<^verbatim>\<open>pathForSource\<close> gives no error) with no glob
  character, when the glob of the path finds no file and gives no error,
  \<^verbatim>\<open>ExistentPathForSource\<close> returns the absent \<^verbatim>\<open>OptionalPath\<close> and reports no error,
  and it has registered the dependency: the path itself through \<^verbatim>\<open>GlobWithDeps\<close> on a
  context that globs, the dependencies of the glob through \<^verbatim>\<open>AddNinjaFileDeps\<close>
  otherwise. When the glob finds a file the result is the valid \<^verbatim>\<open>OptionalPath\<close> that
  holds the source path.
\<close>

theorem existent_path_absent_or_valid:
  assumes "pathForSource ctx comps = (p, None)"
    and "\<not> IsGlob (SourcePath_String p)"
    and "Glob ctx (SourcePath_String p) = (files, deps, None)"
  shows "ExistentPathForSource ctx comps eff =
           Inr (if files = [] then OptionalPath_empty
                else \<lparr>valid = True, opath = Some (SourcePath p)\<rparr>,
                if is_PathGlobContext ctx
                then eff\<lparr>globDeps := globDeps eff @ [SourcePath_String p]\<rparr>
                else eff\<lparr>ninjaFileDeps := ninjaFileDeps eff @ deps\<rparr>)"
  using assms
  by (simp add: ExistentPathForSource_def existsWithDependencies_def OptionalPathForPath_def)

theorem existent_path_absent_or_valid_witness:
  "ExistentPathForSource sample_context [''x''] no_effects =
     Inr (OptionalPath_empty, no_effects\<lparr>globDeps := [''x'']\<rparr>) \<and>
   ExistentPathForSource (sample_context\<lparr>Glob := (\<lambda>f. ([f], [''d''], None)), is_PathGlobContext := False\<rparr>)
       [''x''] no_effects =
     Inr (\<lparr>valid = True, opath = Some (SourcePath \<lparr>path = ''x'', config = sample_config, rel = []\<rparr>)\<rparr>,
          no_effects\<lparr>ninjaFileDeps := [''d'']\<rparr>)"
proof -
  let ?p = "\<lparr>path = ''x'', config = sample_config, rel = []\<rparr>"
  have j: "SourcePath_String ?p = ''x''"
    by (simp add: SourcePath_String_def sample_config_def Join_def Clean_def clean_elem_def)
  have g: "\<not> IsGlob (SourcePath_String ?p)" by (simp add: j IsGlob_def)
  have 1: "Glob sample_context (SourcePath_String ?p) = ([], [''d''], None)"
    by (simp add: sample_context_def)
  let ?c2 = "sample_context\<lparr>Glob := (\<lambda>f. ([f], [''d''], None)), is_PathGlobContext := False\<rparr>"
  have s1: "pathForSource sample_context [''x''] = (?p, None)"
    by (rule sample_source_x) (simp add: sample_context_def)
  have s2: "pathForSource ?c2 [''x''] = (?p, None)"
    by (rule sample_source_x) (simp add: sample_context_def)
  have 2: "Glob ?c2 (SourcePath_String ?p) = ([''x''], [''d''], None)"
    by (simp add: j)
  show ?thesis
    using existent_path_absent_or_valid[OF s1 g 1, of no_effects]
      existent_path_absent_or_valid[OF s2 g 2, of no_effects]
    by (simp add: j no_effects_def sample_context_def)
qed


text \<open>
  Claim C3. Graph evaluation builds paths on module contexts, which have
  \<^verbatim>\<open>ModuleErrorf\<close>, and on singleton contexts, which have \<^verbatim>\<open>Errorf\<close>. On both,
  \<^verbatim>\<open>PathForSource\<close> always returns, with the path \<^verbatim>\<open>pathForSource\<close> built (the empty one
  when validation failed), and an error of \<^verbatim>\<open>pathForSource\<close> or a glob character is
  reported: against the module when the context has \<^verbatim>\<open>ModuleErrorf\<close>, to the context
  otherwise; the errors reported before are kept.
\<close>

theorem malformed_source_path_reported:
  "(is_moduleErrorf ctx \<longrightarrow>
      (\<exists>eff'. PathForSource ctx comps eff = Inr (fst (pathForSource ctx comps), eff') \<and>
         prefix (moduleErrors eff) (moduleErrors eff') \<and> contextErrors eff' = contextErrors eff \<and>
         (\<forall>e. snd (pathForSource ctx comps) = Some e \<longrightarrow> e \<in> set (moduleErrors eff')) \<and>
         (IsGlob (SourcePath_String (fst (pathForSource ctx comps))) \<longrightarrow>
            ContainsGlob (SourcePath_String (fst (pathForSource ctx comps)))
              \<in> set (moduleErrors eff')))) \<and>
   (\<not> is_moduleErrorf ctx \<and> is_errorfContext ctx \<longrightarrow>
      (\<exists>eff'. PathForSource ctx comps eff = Inr (fst (pathForSource ctx comps), eff') \<and>
         prefix (contextErrors eff) (contextErrors eff') \<and> moduleErrors eff' = moduleErrors eff \<and>
         (\<forall>e. snd (pathForSource ctx comps) = Some e \<longrightarrow> e \<in> set (contextErrors eff')) \<and>
         (IsGlob (SourcePath_String (fst (pathForSource ctx comps))) \<longrightarrow>
            ContainsGlob (SourcePath_String (fst (pathForSource ctx comps)))
              \<in> set (contextErrors eff'))))"
  using PathForSource_module[of ctx comps eff] PathForSource_context[of ctx comps eff]
  by blast

theorem malformed_source_path_reported_witness:
  "(\<exists>eff'. PathForSource sample_context [''../x''] no_effects =
       Inr (\<lparr>path = [], config = sample_config, rel = []\<rparr>, eff') \<and>
     OutsideDirectory ''../x'' \<in> set (moduleErrors eff') \<and> contextErrors eff' = []) \<and>
   (\<exists>eff'. PathForSource sample_singleton_context [''../x''] no_effects =
       Inr (\<lparr>path = [], config = sample_config, rel = []\<rparr>, eff') \<and>
     OutsideDirectory ''../x'' \<in> set (contextErrors eff') \<and> moduleErrors eff' = [])"
proof -
  have s: "pathForSource sample_context [''../x''] =
     (\<lparr>path = [], config = sample_config, rel = []\<rparr>, Some (OutsideDirectory ''../x''))"
    by (rule sample_source_escape) (simp add: sample_context_def)
  have t: "pathForSource sample_singleton_context [''../x''] =
     (\<lparr>path = [], config = sample_config, rel = []\<rparr>, Some (OutsideDirectory ''../x''))"
    by (rule sample_source_escape) (simp add: sample_context_def sample_singleton_context_def)
  have m: "is_moduleErrorf sample_context" by (simp add: sample_context_def)
  have n: "\<not> is_moduleErrorf sample_singleton_context" "is_errorfContext sample_singleton_context"
    by (simp_all add: sample_singleton_context_def)
  have 1: "\<exists>eff'. PathForSource sample_context [''../x''] no_effects =
       Inr (\<lparr>path = [], config = sample_config, rel = []\<rparr>, eff') \<and>
     OutsideDirectory ''../x'' \<in> set (moduleErrors eff') \<and> contextErrors eff' = []"
    using malformed_source_path_reported[of sample_context "[''../x'']" no_effects] m
    by (auto simp: s no_effects_def)
  have 2: "\<exists>eff'. PathForSource sample_singleton_context [''../x''] no_effects =
       Inr (\<lparr>path = [], config = sample_config, rel = []\<rparr>, eff') \<and>
     OutsideDirectory ''../x'' \<in> set (contextErrors eff') \<and> moduleErrors eff' = []"
    using malformed_source_path_reported[of sample_singleton_context "[''../x'']" no_effects] n
    by (auto simp: t no_effects_def)
  from 1 2 show ?thesis by (rule conjI)
qed


section \<open>Claims about output and install paths\<close>

text \<open>
  Claim C7. The install destination is a total function of the attributes of the module:
  for every combination of the flags \<^verbatim>\<open>modulePartition\<close> is the one partition the chain
  gives, where data goes before recovery, recovery before the vendor, odm, product and
  product-services partitions, \<^verbatim>\<open>system\<close> is the default, and the sanitizer flag puts
  \<^verbatim>\<open>data/asan/\<close> in front; \<^verbatim>\<open>PathForModuleInstall\<close> is \<^verbatim>\<open>PathForOutput\<close> of the one root
  (\<^verbatim>\<open>target/product/<device>/<partition>\<close> on a device, \<^verbatim>\<open>host/<os>-x86\<close> on a host,
  under \<^verbatim>\<open>debug\<close> for a debug build) followed by the components; it returns on every
  context that takes errors, when it reports nothing the elements of the path are those
  of the root followed by those of the components, and the path it returns is the same
  on every context with the same configuration and flags, whatever was reported before.
\<close>

theorem install_destination_total:
  "modulePartition ctx =
     (if InstallInSanitizerDir ctx then ''data/asan/'' else []) @
     (if InstallInData ctx then ''data''
      else if InstallInRecovery ctx then ''recovery/root/system''
      else if SocSpecific ctx then VendorPath (Config ctx)
      else if DeviceSpecific ctx then OdmPath (Config ctx)
      else if ProductSpecific ctx then ProductPath (Config ctx)
      else if ProductServicesSpecific ctx then ProductServicesPath (Config ctx)
      else ''system'') \<and>
   PathForModuleInstall ctx comps eff =
     PathForOutput ctx
       ((if Debug ctx then [''debug''] else []) @
        (if Device ctx
         then [''target'', ''product'', DeviceName (Config ctx), modulePartition ctx]
         else [''host'', (case Os ctx of Linux \<Rightarrow> ''linux-x86''
                          | LinuxBionic \<Rightarrow> ''linux_bionic-x86''
                          | OtherOs n \<Rightarrow> n @ ''-x86'')]) @ comps) eff \<and>
   (is_moduleErrorf ctx \<or> is_errorfContext ctx \<longrightarrow>
      (\<exists>p eff'. PathForModuleInstall ctx comps eff = Inr (p, eff'))) \<and>
   (\<forall>p. PathForModuleInstall ctx comps eff = Inr (p, eff) \<longrightarrow>
      path_elems (path p) =
        (if Debug ctx then [''debug''] else []) @
        (if Device ctx
         then [''target'', ''product''] @ path_elems (DeviceName (Config ctx)) @
              path_elems (modulePartition ctx)
         else [''host''] @ path_elems (case Os ctx of Linux \<Rightarrow> ''linux-x86''
                          | LinuxBionic \<Rightarrow> ''linux_bionic-x86''
                          | OtherOs n \<Rightarrow> n @ ''-x86'')) @
        concat (map path_elems comps)) \<and>
   (\<forall>ctx' eff2 p p' eff' eff2'.
      Config ctx' = Config ctx \<and> Os ctx' = Os ctx \<and> Device ctx' = Device ctx \<and>
      Debug ctx' = Debug ctx \<and> InstallInData ctx' = InstallInData ctx \<and>
      InstallInSanitizerDir ctx' = InstallInSanitizerDir ctx \<and>
      InstallInRecovery ctx' = InstallInRecovery ctx \<and> SocSpecific ctx' = SocSpecific ctx \<and>
      DeviceSpecific ctx' = DeviceSpecific ctx \<and> ProductSpecific ctx' = ProductSpecific ctx \<and>
      ProductServicesSpecific ctx' = ProductServicesSpecific ctx \<and>
      PathForModuleInstall ctx comps eff = Inr (p, eff') \<and>
      PathForModuleInstall ctx' comps eff2 = Inr (p', eff2') \<longrightarrow> p' = p)"
proof -
  have 1: "modulePartition ctx =
     (if InstallInSanitizerDir ctx then ''data/asan/'' else []) @
     (if InstallInData ctx then ''data''
      else if InstallInRecovery ctx then ''recovery/root/system''
      else if SocSpecific ctx then VendorPath (Config ctx)
      else if DeviceSpecific ctx then OdmPath (Config ctx)
      else if ProductSpecific ctx then ProductPath (Config ctx)
      else if ProductServicesSpecific ctx then ProductServicesPath (Config ctx)
      else ''system'')"
    by (simp add: modulePartition_def)
  have 2: "PathForModuleInstall ctx comps eff =
     PathForOutput ctx
       ((if Debug ctx then [''debug''] else []) @
        (if Device ctx
         then [''target'', ''product'', DeviceName (Config ctx), modulePartition ctx]
         else [''host'', (case Os ctx of Linux \<Rightarrow> ''linux-x86''
                          | LinuxBionic \<Rightarrow> ''linux_bionic-x86''
                          | OtherOs n \<Rightarrow> n @ ''-x86'')]) @ comps) eff"
    by (simp add: PathForModuleInstall_root install_root_def)
  have 3: "is_moduleErrorf ctx \<or> is_errorfContext ctx \<longrightarrow>
      (\<exists>p eff'. PathForModuleInstall ctx comps eff = Inr (p, eff'))"
    using PathForOutput_reporting[of ctx "install_root ctx @ comps" eff]
    by (simp add: PathForModuleInstall_root)
  have 4: "path_elems (path p) =
        (if Debug ctx then [''debug''] else []) @
        (if Device ctx
         then [''target'', ''product''] @ path_elems (DeviceName (Config ctx)) @
              path_elems (modulePartition ctx)
         else [''host''] @ path_elems (case Os ctx of Linux \<Rightarrow> ''linux-x86''
                          | LinuxBionic \<Rightarrow> ''linux_bionic-x86''
                          | OtherOs n \<Rightarrow> n @ ''-x86'')) @
        concat (map path_elems comps)"
    if "PathForModuleInstall ctx comps eff = Inr (p, eff)" for p
  proof -
    from that have q: "snd (validatePath (install_root ctx @ comps)) = None"
      and p: "p = \<lparr>path = Join (install_root ctx @ comps), config = Config ctx, rel = []\<rparr>"
      using PathForOutput_quiet[of ctx "install_root ctx @ comps" eff p]
      by (simp_all add: PathForModuleInstall_root)
    from q have "path_elems (Join (install_root ctx @ comps)) =
        concat (map path_elems (install_root ctx @ comps))"
      using path_elems_validatePath[of "install_root ctx @ comps"] validatePath_ok_Join by simp
    then show ?thesis
      by (simp add: p install_root_def path_elems_literals)
  qed
  have 5: "p' = p"
    if "Config ctx' = Config ctx \<and> Os ctx' = Os ctx \<and> Device ctx' = Device ctx \<and>
      Debug ctx' = Debug ctx \<and> InstallInData ctx' = InstallInData ctx \<and>
      InstallInSanitizerDir ctx' = InstallInSanitizerDir ctx \<and>
      InstallInRecovery ctx' = InstallInRecovery ctx \<and> SocSpecific ctx' = SocSpecific ctx \<and>
      DeviceSpecific ctx' = DeviceSpecific ctx \<and> ProductSpecific ctx' = ProductSpecific ctx \<and>
      ProductServicesSpecific ctx' = ProductServicesSpecific ctx \<and>
      PathForModuleInstall ctx comps eff = Inr (p, eff') \<and>
      PathForModuleInstall ctx' comps eff2 = Inr (p', eff2')"
    for ctx' eff2 p p' eff' eff2'
    using that PathForModuleInstall_attributes[of ctx' ctx comps eff p eff' eff2 p' eff2']
    by blast
  have 6: "\<forall>p. PathForModuleInstall ctx comps eff = Inr (p, eff) \<longrightarrow>
      path_elems (path p) =
        (if Debug ctx then [''debug''] else []) @
        (if Device ctx
         then [''target'', ''product''] @ path_elems (DeviceName (Config ctx)) @
              path_elems (modulePartition ctx)
         else [''host''] @ path_elems (case Os ctx of Linux \<Rightarrow> ''linux-x86''
                          | LinuxBionic \<Rightarrow> ''linux_bionic-x86''
                          | OtherOs n \<Rightarrow> n @ ''-x86'')) @
        concat (map path_elems comps)"
    using 4 by (intro allI impI)
  have 7: "\<forall>ctx' eff2 p p' eff' eff2'.
      Config ctx' = Config ctx \<and> Os ctx' = Os ctx \<and> Device ctx' = Device ctx \<and>
      Debug ctx' = Debug ctx \<and> InstallInData ctx' = InstallInData ctx \<and>
      InstallInSanitizerDir ctx' = InstallInSanitizerDir ctx \<and>
      InstallInRecovery ctx' = InstallInRecovery ctx \<and> SocSpecific ctx' = SocSpecific ctx \<and>
      DeviceSpecific ctx' = DeviceSpecific ctx \<and> ProductSpecific ctx' = ProductSpecific ctx \<and>
      ProductServicesSpecific ctx' = ProductServicesSpecific ctx \<and>
      PathForModuleInstall ctx comps eff = Inr (p, eff') \<and>
      PathForModuleInstall ctx' comps eff2 = Inr (p', eff2') \<longrightarrow> p' = p"
    using 5 by (intro allI impI)
  show ?thesis
    by (intro conjI) (fact 1, fact 2, fact 3, fact 6, fact 7)
qed

theorem install_destination_total_witness:
  "modulePartition (sample_context\<lparr>InstallInData := True, InstallInSanitizerDir := True,
       InstallInRecovery := True\<rparr>) = ''data/asan/data'' \<and>
   modulePartition (sample_context\<lparr>InstallInRecovery := True, SocSpecific := True\<rparr>)
     = ''recovery/root/system'' \<and>
   modulePartition sample_context = ''system'' \<and>
   (\<exists>p eff'. PathForModuleInstall sample_context [''x''] no_effects = Inr (p, eff'))"
proof -
  have f: "InstallInSanitizerDir sample_context = False" "InstallInData sample_context = False"
    "InstallInRecovery sample_context = False" "SocSpecific sample_context = False"
    "DeviceSpecific sample_context = False" "ProductSpecific sample_context = False"
    "ProductServicesSpecific sample_context = False" "is_moduleErrorf sample_context"
    by (simp_all add: sample_context_def)
  have 1: "modulePartition (sample_context\<lparr>InstallInData := True, InstallInSanitizerDir := True,
       InstallInRecovery := True\<rparr>) = ''data/asan/data''"
    using install_destination_total[THEN conjunct1, of "sample_context\<lparr>InstallInData := True,
       InstallInSanitizerDir := True, InstallInRecovery := True\<rparr>"]
    by simp
  have 2: "modulePartition (sample_context\<lparr>InstallInRecovery := True, SocSpecific := True\<rparr>)
     = ''recovery/root/system''"
    using install_destination_total[THEN conjunct1, of "sample_context\<lparr>InstallInRecovery := True,
       SocSpecific := True\<rparr>"]
    by (simp add: f)
  have 3: "modulePartition sample_context = ''system''"
    using install_destination_total[THEN conjunct1, of sample_context] by (simp add: f)
  have 4: "\<exists>p eff'. PathForModuleInstall sample_context [''x''] no_effects = Inr (p, eff')"
    using install_destination_total[of sample_context "[''x'']" no_effects] f(8) by blast
  from 1 2 3 4 show ?thesis by blast
qed

text \<open>
  Claim C1, amended. Take two modules whose directories are cleaned relative paths,
  whose names are single path elements, and whose variant directories are empty or
  single path elements. \<^verbatim>\<open>pathForModule\<close> reports nothing and returns a root for each,
  and \<^verbatim>\<open>PathForModuleOut\<close> returns for every list of components that validation
  accepts. If the variant directories are both empty or both not, and the two
  (directory, name, variant) tuples differ, then the two roots differ and
  \<^verbatim>\<open>PathForModuleOut\<close> gives two different paths for the same components. If neither
  output directory lies inside the other (neither sequence of elements of directory,
  name and variant begins with the other), then no path \<^verbatim>\<open>PathForModuleOut\<close> gives for
  one module is a path it gives for the other, whatever the components of each. Under
  one configuration the paths also differ as strings (\<^verbatim>\<open>String()\<close>, with the build
  directory in front).
\<close>

theorem module_output_roots_distinct:
  assumes "clean_dir (ModuleDir c1)" and "clean_dir (ModuleDir c2)"
    and "plain_name (ModuleName c1)" and "plain_name (ModuleName c2)"
    and "ModuleSubDir c1 = [] \<or> plain_name (ModuleSubDir c1)"
    and "ModuleSubDir c2 = [] \<or> plain_name (ModuleSubDir c2)"
  shows "\<exists>r1 r2. pathForModule c1 e1 = Inr (r1, e1) \<and> pathForModule c2 e2 = Inr (r2, e2) \<and>
     (\<forall>paths. snd (validatePath paths) = None \<longrightarrow>
        (\<exists>q1. PathForModuleOut c1 paths e1 = Inr (q1, e1)) \<and>
        (\<exists>q2. PathForModuleOut c2 paths e2 = Inr (q2, e2))) \<and>
     ((ModuleSubDir c1 = []) = (ModuleSubDir c2 = []) \<and>
      (ModuleDir c1, ModuleName c1, ModuleSubDir c1) \<noteq>
        (ModuleDir c2, ModuleName c2, ModuleSubDir c2) \<longrightarrow>
        path r1 \<noteq> path r2 \<and>
        (Config c1 = Config c2 \<longrightarrow> OutputPath_String r1 \<noteq> OutputPath_String r2) \<and>
        (\<forall>paths q1 q2 f1 f2.
           PathForModuleOut c1 paths e1 = Inr (q1, f1) \<and>
           PathForModuleOut c2 paths e2 = Inr (q2, f2) \<longrightarrow>
             path q1 \<noteq> path q2 \<and>
             (Config c1 = Config c2 \<longrightarrow> OutputPath_String q1 \<noteq> OutputPath_String q2))) \<and>
     (\<not> prefix (module_dir_elems c1) (module_dir_elems c2) \<and>
      \<not> prefix (module_dir_elems c2) (module_dir_elems c1) \<longrightarrow>
        (\<forall>paths1 paths2 q1 q2 f1 f2.
           PathForModuleOut c1 paths1 e1 = Inr (q1, f1) \<and>
           PathForModuleOut c2 paths2 e2 = Inr (q2, f2) \<longrightarrow>
             path q1 \<noteq> path q2 \<and>
             (Config c1 = Config c2 \<longrightarrow> OutputPath_String q1 \<noteq> OutputPath_String q2)))"
proof -
  obtain r1 where r1: "\<forall>eff. pathForModule c1 eff = Inr (r1, eff)" "stays_inside (path r1)"
    "config r1 = Config c1"
    "path_elems (path r1) = ''.intermediates'' # module_dir_elems c1"
    using pathForModule_root[OF assms(1,3,5)] unfolding module_dir_elems_def by blast
  obtain r2 where r2: "\<forall>eff. pathForModule c2 eff = Inr (r2, eff)" "stays_inside (path r2)"
    "config r2 = Config c2"
    "path_elems (path r2) = ''.intermediates'' # module_dir_elems c2"
    using pathForModule_root[OF assms(2,4,6)] unfolding module_dir_elems_def by blast
  have out: "path_elems (path q1) = path_elems (path r1) @ path_elems (fst (validatePath paths1)) \<and>
      path_elems (path q2) = path_elems (path r2) @ path_elems (fst (validatePath paths2)) \<and>
      (path_elems (path q1) \<noteq> path_elems (path q2) \<longrightarrow>
         path q1 \<noteq> path q2 \<and>
         (Config c1 = Config c2 \<longrightarrow> OutputPath_String q1 \<noteq> OutputPath_String q2))"
    if "PathForModuleOut c1 paths1 e1 = Inr (q1, f1) \<and> PathForModuleOut c2 paths2 e2 = Inr (q2, f2)"
    for paths1 paths2 q1 q2 f1 f2
  proof -
    let ?p1 = "fst (validatePath paths1)" and ?p2 = "fst (validatePath paths2)"
    have q: "path q1 = Join [path r1, ?p1]" "path q2 = Join [path r2, ?p2]"
      "config q1 = config r1" "config q2 = config r2"
      using that PathForModuleOut_path[OF r1(1)] PathForModuleOut_path[OF r2(1)] by blast+
    have p: "stays_inside ?p1" "stays_inside ?p2" by (rule stays_inside_validatePath)+
    have e: "path_elems (path q1) = path_elems (path r1) @ path_elems ?p1"
      "path_elems (path q2) = path_elems (path r2) @ path_elems ?p2"
      using r1(2) r2(2) p by (simp_all add: q path_elems_Join2)
    have s: "stays_inside (path q1)" "stays_inside (path q2)"
      using r1(2) r2(2) p stays_inside_Join[of "[path r1, ?p1]"] stays_inside_Join[of "[path r2, ?p2]"]
      by (simp_all add: q)
    have "Config c1 = Config c2 \<longrightarrow> OutputPath_String q1 \<noteq> OutputPath_String q2"
      if "path_elems (path q1) \<noteq> path_elems (path q2)"
      using OutputPath_String_inj[OF s _ that] q(3,4) r1(3) r2(3) by simp
    moreover have "path q1 \<noteq> path q2" if "path_elems (path q1) \<noteq> path_elems (path q2)"
      using that by auto
    ultimately show ?thesis using e by blast
  qed
  have t: "(\<exists>q1. PathForModuleOut c1 paths e1 = Inr (q1, e1)) \<and>
      (\<exists>q2. PathForModuleOut c2 paths e2 = Inr (q2, e2))"
    if "snd (validatePath paths) = None" for paths
    using PathForModuleOut_returns[OF assms(1,3,5) that] PathForModuleOut_returns[OF assms(2,4,6) that]
    by blast
  have a: "path r1 \<noteq> path r2 \<and>
      (Config c1 = Config c2 \<longrightarrow> OutputPath_String r1 \<noteq> OutputPath_String r2) \<and>
      (\<forall>paths q1 q2 f1 f2.
         PathForModuleOut c1 paths e1 = Inr (q1, f1) \<and>
         PathForModuleOut c2 paths e2 = Inr (q2, f2) \<longrightarrow>
           path q1 \<noteq> path q2 \<and>
           (Config c1 = Config c2 \<longrightarrow> OutputPath_String q1 \<noteq> OutputPath_String q2))"
    if h: "(ModuleSubDir c1 = []) = (ModuleSubDir c2 = []) \<and>
      (ModuleDir c1, ModuleName c1, ModuleSubDir c1) \<noteq>
        (ModuleDir c2, ModuleName c2, ModuleSubDir c2)"
  proof -
    have ne: "path_elems (path r1) \<noteq> path_elems (path r2)"
    proof
      assume "path_elems (path r1) = path_elems (path r2)"
      then have "path_elems (ModuleDir c1) @ ModuleName c1 # sub_elems (ModuleSubDir c1) =
          path_elems (ModuleDir c2) @ ModuleName c2 # sub_elems (ModuleSubDir c2)"
        by (simp add: r1(4) r2(4) module_dir_elems_def)
      from module_elems_inj[OF assms(1,2) _ this] h show False by simp
    qed
    then have 1: "path r1 \<noteq> path r2" by auto
    have 2: "Config c1 = Config c2 \<longrightarrow> OutputPath_String r1 \<noteq> OutputPath_String r2"
      using OutputPath_String_inj[OF r1(2) r2(2) _ ne] r1(3) r2(3) by simp
    have 3: "path q1 \<noteq> path q2 \<and>
        (Config c1 = Config c2 \<longrightarrow> OutputPath_String q1 \<noteq> OutputPath_String q2)"
      if "PathForModuleOut c1 paths e1 = Inr (q1, f1) \<and> PathForModuleOut c2 paths e2 = Inr (q2, f2)"
      for paths q1 q2 f1 f2
      using out[OF that] ne by simp
    from 1 2 3 show ?thesis by blast
  qed
  have b: "path q1 \<noteq> path q2 \<and>
      (Config c1 = Config c2 \<longrightarrow> OutputPath_String q1 \<noteq> OutputPath_String q2)"
    if h: "\<not> prefix (module_dir_elems c1) (module_dir_elems c2) \<and>
      \<not> prefix (module_dir_elems c2) (module_dir_elems c1)"
      and o: "PathForModuleOut c1 paths1 e1 = Inr (q1, f1) \<and>
        PathForModuleOut c2 paths2 e2 = Inr (q2, f2)"
    for paths1 paths2 q1 q2 f1 f2
  proof -
    have "path_elems (path q1) \<noteq> path_elems (path q2)"
    proof
      assume "path_elems (path q1) = path_elems (path q2)"
      with out[OF o] have "path_elems (path r1) @ path_elems (fst (validatePath paths1)) =
          path_elems (path r2) @ path_elems (fst (validatePath paths2))"
        by metis
      from append_eq_prefix[OF this] h show False by (simp add: r1(4) r2(4))
    qed
    with out[OF o] show ?thesis by blast
  qed
  from r1(1) r2(1) have "pathForModule c1 e1 = Inr (r1, e1)" "pathForModule c2 e2 = Inr (r2, e2)"
    by simp_all
  with t a b show ?thesis by blast
qed

theorem module_output_roots_distinct_witness:
  "\<exists>r1 r2 q1 q2. pathForModule sample_context no_effects = Inr (r1, no_effects) \<and>
     pathForModule (sample_context\<lparr>ModuleSubDir := ''d''\<rparr>) no_effects = Inr (r2, no_effects) \<and>
     path r1 \<noteq> path r2 \<and> OutputPath_String r1 \<noteq> OutputPath_String r2 \<and>
     PathForModuleOut sample_context [''d'', ''x''] no_effects = Inr (q1, no_effects) \<and>
     PathForModuleOut (sample_context\<lparr>ModuleSubDir := ''d''\<rparr>) [''x''] no_effects
       = Inr (q2, no_effects) \<and>
     path q1 \<noteq> path q2 \<and> OutputPath_String q1 \<noteq> OutputPath_String q2"
proof -
  let ?c2 = "sample_context\<lparr>ModuleSubDir := ''d''\<rparr>"
  have f: "ModuleDir sample_context = ''a''" "ModuleName sample_context = ''b''"
    "ModuleSubDir sample_context = ''c''"
    by (simp_all add: sample_context_def)
  have c: "Clean ''a'' = ''a''" by (simp add: Clean_def clean_elem_def)
  have d: "clean_dir ''a''" by (simp add: clean_dir_def stays_inside_def c HasPrefix_def)
  have p: "plain_name ''b''" "plain_name ''c''" "plain_name ''d''" "plain_name ''x''"
    by (simp_all add: plain_name_def)
  have m: "module_dir_elems sample_context = [''a'', ''b'', ''c'']"
    "module_dir_elems ?c2 = [''a'', ''b'', ''d'']"
    by (rule sample_module_dir_elems; simp add: f)+
  have v: "snd (validatePath [''d'', ''x'']) = None" "snd (validatePath [''x'']) = None"
    using p plain_name_inside by (simp_all add: validatePath_ok_iff plain_name_def)
  from module_output_roots_distinct[of sample_context ?c2 no_effects no_effects]
  obtain r1 r2 where r: "pathForModule sample_context no_effects = Inr (r1, no_effects)"
    "pathForModule ?c2 no_effects = Inr (r2, no_effects)"
    and t: "\<forall>paths. snd (validatePath paths) = None \<longrightarrow>
        (\<exists>q1. PathForModuleOut sample_context paths no_effects = Inr (q1, no_effects)) \<and>
        (\<exists>q2. PathForModuleOut ?c2 paths no_effects = Inr (q2, no_effects))"
    and a: "path r1 \<noteq> path r2" "OutputPath_String r1 \<noteq> OutputPath_String r2"
    and b: "\<forall>paths1 paths2 q1 q2 f1 f2.
           PathForModuleOut sample_context paths1 no_effects = Inr (q1, f1) \<and>
           PathForModuleOut ?c2 paths2 no_effects = Inr (q2, f2) \<longrightarrow>
             path q1 \<noteq> path q2 \<and> OutputPath_String q1 \<noteq> OutputPath_String q2"
    by (simp add: f d p m) blast
  from t v obtain q1 q2 where
    q: "PathForModuleOut sample_context [''d'', ''x''] no_effects = Inr (q1, no_effects)"
    "PathForModuleOut ?c2 [''x''] no_effects = Inr (q2, no_effects)"
    by blast
  with b have "path q1 \<noteq> path q2 \<and> OutputPath_String q1 \<noteq> OutputPath_String q2" by blast
  with r a q show ?thesis by blast
qed

text \<open>
  The claim as stated fails in two ways. When one module has a variant directory and the
  other has none, two different tuples have the same root: the module \<^verbatim>\<open>b\<close> of directory
  \<^verbatim>\<open>a\<close> in its variant \<^verbatim>\<open>c\<close>, and the module \<^verbatim>\<open>c\<close> of directory \<^verbatim>\<open>a/b\<close> with no variant.
  When the output directory of one module lies inside that of the other, the two modules
  share an output path: the module \<^verbatim>\<open>b\<close> of directory \<^verbatim>\<open>a\<close> with the components \<^verbatim>\<open>c\<close>,
  \<^verbatim>\<open>x\<close>, and the module \<^verbatim>\<open>c\<close> of directory \<^verbatim>\<open>a/b\<close> with the component \<^verbatim>\<open>x\<close>, neither with a
  variant.
\<close>

theorem module_output_roots_distinct_counterexample:
  "pathForModule sample_context no_effects =
     Inr (\<lparr>path = ''.intermediates/a/b/c'', config = sample_config, rel = []\<rparr>, no_effects) \<and>
   pathForModule (sample_context\<lparr>ModuleDir := ''a/b'', ModuleName := ''c'', ModuleSubDir := []\<rparr>)
       no_effects =
     Inr (\<lparr>path = ''.intermediates/a/b/c'', config = sample_config, rel = []\<rparr>, no_effects) \<and>
   (ModuleDir sample_context, ModuleName sample_context, ModuleSubDir sample_context) \<noteq>
     (''a/b'', ''c'', []) \<and>
   PathForModuleOut (sample_context\<lparr>ModuleSubDir := []\<rparr>) [''c'', ''x''] no_effects =
     Inr (\<lparr>path = ''.intermediates/a/b/c/x'', config = sample_config, rel = ''c/x''\<rparr>, no_effects) \<and>
   PathForModuleOut (sample_context\<lparr>ModuleDir := ''a/b'', ModuleName := ''c'', ModuleSubDir := []\<rparr>)
       [''x''] no_effects =
     Inr (\<lparr>path = ''.intermediates/a/b/c/x'', config = sample_config, rel = ''x''\<rparr>, no_effects) \<and>
   (ModuleDir sample_context, ModuleName sample_context, []) \<noteq> (''a/b'', ''c'', [])"
proof -
  have f: "ModuleDir sample_context = ''a''" "ModuleName sample_context = ''b''"
    "ModuleSubDir sample_context = ''c''" "Config sample_context = sample_config"
    by (simp_all add: sample_context_def)
  have c: "Clean ''.intermediates'' = ''.intermediates''" "Clean ''a'' = ''a''" "Clean ''b'' = ''b''"
    "Clean ''c'' = ''c''" "Clean ''x'' = ''x''" "Clean [] = ''.''"
    by (simp_all add: Clean_def clean_elem_def)
  have j: "Join [''.intermediates'', ''a'', ''b'', []] = ''.intermediates/a/b''"
    "Join [''c'', ''x''] = ''c/x''" "Join [''x''] = ''x''"
    "Join [''.intermediates/a/b'', ''c/x''] = ''.intermediates/a/b/c/x''"
    "Join [''.intermediates/a/b/c'', ''x''] = ''.intermediates/a/b/c/x''"
    by (simp_all add: Join_def Clean_def clean_elem_def)
  have v: "validatePath [''.intermediates'', ''a'', ''b'', []] = (''.intermediates/a/b'', None)"
    "validatePath [''c'', ''x''] = (''c/x'', None)" "validatePath [''x''] = (''x'', None)"
    by (simp_all add: validatePath_def validateSafePath_def c j HasPrefix_def)
  have 1: "pathForModule sample_context no_effects =
     Inr (\<lparr>path = ''.intermediates/a/b/c'', config = sample_config, rel = []\<rparr>, no_effects)"
    "pathForModule (sample_context\<lparr>ModuleDir := ''a/b'', ModuleName := ''c'', ModuleSubDir := []\<rparr>)
       no_effects =
     Inr (\<lparr>path = ''.intermediates/a/b/c'', config = sample_config, rel = []\<rparr>, no_effects)"
    by (simp_all add: pathForModule_def PathForOutput_def f sample_validate)
  have 2: "PathForModuleOut (sample_context\<lparr>ModuleSubDir := []\<rparr>) [''c'', ''x''] no_effects =
     Inr (\<lparr>path = ''.intermediates/a/b/c/x'', config = sample_config, rel = ''c/x''\<rparr>, no_effects)"
    by (simp add: PathForModuleOut_def pathForModule_def PathForOutput_def f v withRel_def j)
  have 3: "PathForModuleOut
       (sample_context\<lparr>ModuleDir := ''a/b'', ModuleName := ''c'', ModuleSubDir := []\<rparr>)
       [''x''] no_effects =
     Inr (\<lparr>path = ''.intermediates/a/b/c/x'', config = sample_config, rel = ''x''\<rparr>, no_effects)"
    by (simp add: PathForModuleOut_def pathForModule_def PathForOutput_def f v sample_validate
        withRel_def j)
  show ?thesis by (simp add: 1 2 3 f)
qed

text \<open>
  Claim C8, amended. Take an app module whose \<^verbatim>\<open>Privileged\<close> property is true, on a
  device or a host. \<^verbatim>\<open>generateAndroidBuildActions\<close> calls \<^verbatim>\<open>ctx.InstallFile\<close> only when
  no error has been reported before its test of \<^verbatim>\<open>ctx.Failed()\<close>, in particular none
  by the install path of \<^verbatim>\<open>dexBuildActions\<close>; the directory it then installs in is never
  in the directory \<^verbatim>\<open>app\<close> of the install root. When the module is not named
  \<^verbatim>\<open>framework-res\<close>, the file is \<^verbatim>\<open><name>.apk\<close> and the directory lies in \<^verbatim>\<open>priv-app\<close>,
  provided the function ends with no error reported or the install name does not leave
  its directory; \<^verbatim>\<open>dexBuildActions\<close> asks for the file \<^verbatim>\<open>priv-app/<name>/<name>.apk\<close>,
  which lies in \<^verbatim>\<open>priv-app\<close> and not in \<^verbatim>\<open>app\<close> when it is built with no error and the
  install name does not leave its directory. The privileged module named
  \<^verbatim>\<open>framework-res\<close> is installed in \<^verbatim>\<open>framework\<close>, and so neither in \<^verbatim>\<open>priv-app\<close> nor in
  \<^verbatim>\<open>app\<close>.
\<close>

theorem privileged_app_install_dir:
  assumes "proptools_Bool (Privileged (appProperties a))"
  shows
  "(\<forall>q dir n eff'.
      generateAndroidBuildActions ovr others a ctx eff = Inr ((q, Some (dir, n)), eff') \<longrightarrow>
        \<not> others \<and> \<not> Failed eff \<and>
        dexBuildActions_installPath (a\<lparr>installApkName := ovr (ModuleName ctx)\<rparr>) ctx eff
          = Inr (q, eff) \<and>
        \<not> under_install_dir ctx eff ''app'' dir \<and>
        (ModuleName ctx \<noteq> ''framework-res'' \<longrightarrow>
           n = ovr (ModuleName ctx) @ ''.apk'' \<and>
           (\<not> Failed eff' \<or> stays_inside (ovr (ModuleName ctx)) \<longrightarrow>
              under_install_dir ctx eff ''priv-app'' dir)) \<and>
        (ModuleName ctx = ''framework-res'' \<longrightarrow>
           n = ''framework-res.apk'' \<and> under_install_dir ctx eff ''framework'' dir \<and>
           \<not> under_install_dir ctx eff ''priv-app'' dir)) \<and>
   (ModuleName ctx \<noteq> ''framework-res'' \<longrightarrow>
      dexBuildActions_installPath a ctx eff =
        PathForModuleInstall ctx
          [Join [''priv-app'', installApkName a], installApkName a @ ''.apk''] eff \<and>
      (\<forall>q. stays_inside (installApkName a) \<and>
           dexBuildActions_installPath a ctx eff = Inr (q, eff) \<longrightarrow>
         under_install_dir ctx eff ''priv-app'' q \<and> \<not> under_install_dir ctx eff ''app'' q)) \<and>
   (ModuleName ctx = ''framework-res'' \<longrightarrow>
      (\<forall>q. dexBuildActions_installPath a ctx eff = Inr (q, eff) \<longrightarrow>
         under_install_dir ctx eff ''framework'' q \<and> \<not> under_install_dir ctx eff ''priv-app'' q \<and>
         \<not> under_install_dir ctx eff ''app'' q))"
proof (intro conjI)
  show "\<forall>q dir n eff'.
      generateAndroidBuildActions ovr others a ctx eff = Inr ((q, Some (dir, n)), eff') \<longrightarrow>
        \<not> others \<and> \<not> Failed eff \<and>
        dexBuildActions_installPath (a\<lparr>installApkName := ovr (ModuleName ctx)\<rparr>) ctx eff
          = Inr (q, eff) \<and>
        \<not> under_install_dir ctx eff ''app'' dir \<and>
        (ModuleName ctx \<noteq> ''framework-res'' \<longrightarrow>
           n = ovr (ModuleName ctx) @ ''.apk'' \<and>
           (\<not> Failed eff' \<or> stays_inside (ovr (ModuleName ctx)) \<longrightarrow>
              under_install_dir ctx eff ''priv-app'' dir)) \<and>
        (ModuleName ctx = ''framework-res'' \<longrightarrow>
           n = ''framework-res.apk'' \<and> under_install_dir ctx eff ''framework'' dir \<and>
           \<not> under_install_dir ctx eff ''priv-app'' dir)"
  proof (intro allI impI)
    fix q dir n eff'
    let ?n = "ovr (ModuleName ctx)"
    let ?a = "a\<lparr>installApkName := ?n\<rparr>"
    assume g: "generateAndroidBuildActions ovr others a ctx eff = Inr ((q, Some (dir, n)), eff')"
    from generateAndroidBuildActions_installs[OF g] obtain eff3 where
      o: "\<not> others" and f: "\<not> Failed eff"
      and d: "dexBuildActions_installPath ?a ctx eff = Inr (q, eff)"
      and i: "if ModuleName ctx = ''framework-res''
        then PathForModuleInstall ctx [''framework''] eff3 = Inr (dir, eff') \<and>
             n = ModuleName ctx @ ''.apk''
        else PathForModuleInstall ctx
               [if proptools_Bool (Privileged (appProperties a)) then ''priv-app'' else ''app'',
                ?n] eff3 = Inr (dir, eff') \<and>
             n = ?n @ ''.apk''"
      by blast
    show "\<not> others \<and> \<not> Failed eff \<and>
        dexBuildActions_installPath ?a ctx eff = Inr (q, eff) \<and>
        \<not> under_install_dir ctx eff ''app'' dir \<and>
        (ModuleName ctx \<noteq> ''framework-res'' \<longrightarrow>
           n = ?n @ ''.apk'' \<and>
           (\<not> Failed eff' \<or> stays_inside ?n \<longrightarrow> under_install_dir ctx eff ''priv-app'' dir)) \<and>
        (ModuleName ctx = ''framework-res'' \<longrightarrow>
           n = ''framework-res.apk'' \<and> under_install_dir ctx eff ''framework'' dir \<and>
           \<not> under_install_dir ctx eff ''priv-app'' dir)"
    proof (cases "ModuleName ctx = ''framework-res''")
      case True
      with d have d': "PathForModuleInstall ctx [''framework'', ?n @ ''.apk''] eff = Inr (q, eff)"
        by (simp add: dexBuildActions_installPath_def)
      from i True have i': "PathForModuleInstall ctx [''framework''] eff3 = Inr (dir, eff')"
        and n: "n = ''framework-res.apk''" by simp_all
      from install_dir_framework[OF d' i'] o f d n True show ?thesis by simp
    next
      case False
      with d assms have d': "PathForModuleInstall ctx
          [Join [''priv-app'', ?n], ?n @ ''.apk''] eff = Inr (q, eff)"
        by (simp add: dexBuildActions_installPath_def)
      from i False assms have i': "PathForModuleInstall ctx [''priv-app'', ?n] eff3 = Inr (dir, eff')"
        and n: "n = ?n @ ''.apk''" by simp_all
      have p: "plain_name ''priv-app''" by (simp add: plain_name_def)
      from install_dir_after_dex[OF d' i' p] have
        u: "\<forall>d. under_install_dir ctx eff d dir \<longrightarrow> d = ''priv-app''"
        and w: "\<not> Failed eff' \<or> stays_inside ?n \<longrightarrow> under_install_dir ctx eff ''priv-app'' dir"
        by blast+
      from u have "\<not> under_install_dir ctx eff ''app'' dir" by auto
      with o f d n w False show ?thesis by simp
    qed
  qed
next
  show "ModuleName ctx \<noteq> ''framework-res'' \<longrightarrow>
      dexBuildActions_installPath a ctx eff =
        PathForModuleInstall ctx
          [Join [''priv-app'', installApkName a], installApkName a @ ''.apk''] eff \<and>
      (\<forall>q. stays_inside (installApkName a) \<and>
           dexBuildActions_installPath a ctx eff = Inr (q, eff) \<longrightarrow>
         under_install_dir ctx eff ''priv-app'' q \<and> \<not> under_install_dir ctx eff ''app'' q)"
  proof (intro impI conjI allI)
    assume n: "ModuleName ctx \<noteq> ''framework-res''"
    show d: "dexBuildActions_installPath a ctx eff =
        PathForModuleInstall ctx
          [Join [''priv-app'', installApkName a], installApkName a @ ''.apk''] eff"
      using n assms by (simp add: dexBuildActions_installPath_def)
    fix q
    assume a: "stays_inside (installApkName a) \<and> dexBuildActions_installPath a ctx eff = Inr (q, eff)"
    with d have "PathForModuleInstall ctx
          [Join [''priv-app'', installApkName a], installApkName a @ ''.apk''] eff = Inr (q, eff)"
      by simp
    from under_install_dir_iff[OF this, of "''priv-app''" "path_elems (installApkName a)"] a
    show "under_install_dir ctx eff ''priv-app'' q" "\<not> under_install_dir ctx eff ''app'' q"
      by (simp_all add: path_elems_priv_app)
  qed
next
  show "ModuleName ctx = ''framework-res'' \<longrightarrow>
      (\<forall>q. dexBuildActions_installPath a ctx eff = Inr (q, eff) \<longrightarrow>
         under_install_dir ctx eff ''framework'' q \<and> \<not> under_install_dir ctx eff ''priv-app'' q \<and>
         \<not> under_install_dir ctx eff ''app'' q)"
  proof (intro impI allI)
    fix q
    assume n: "ModuleName ctx = ''framework-res''"
      and "dexBuildActions_installPath a ctx eff = Inr (q, eff)"
    then have "PathForModuleInstall ctx [''framework'', installApkName a @ ''.apk''] eff = Inr (q, eff)"
      by (simp add: dexBuildActions_installPath_def)
    from under_install_dir_iff[OF this, of "''framework''" "[]"]
    show "under_install_dir ctx eff ''framework'' q \<and> \<not> under_install_dir ctx eff ''priv-app'' q \<and>
         \<not> under_install_dir ctx eff ''app'' q"
      by (simp add: path_elems_def clean_elem_def)
  qed
qed


theorem privileged_app_install_dir_witness:
  "generateAndroidBuildActions (\<lambda>n. n) False (sample_app ''b'')
       (sample_context\<lparr>ModuleName := ''b''\<rparr>) no_effects =
     Inr ((\<lparr>path = ''target/product/dev/system/priv-app/b/b.apk'', config = sample_config, rel = []\<rparr>,
           Some (\<lparr>path = ''target/product/dev/system/priv-app/b'', config = sample_config, rel = []\<rparr>,
                 ''b.apk'')), no_effects) \<and>
   under_install_dir (sample_context\<lparr>ModuleName := ''b''\<rparr>) no_effects ''priv-app''
     \<lparr>path = ''target/product/dev/system/priv-app/b'', config = sample_config, rel = []\<rparr> \<and>
   \<not> under_install_dir (sample_context\<lparr>ModuleName := ''b''\<rparr>) no_effects ''app''
     \<lparr>path = ''target/product/dev/system/priv-app/b'', config = sample_config, rel = []\<rparr> \<and>
   generateAndroidBuildActions (\<lambda>n. n) False (sample_app ''b'')
       (sample_context\<lparr>ModuleName := ''b$''\<rparr>) no_effects =
     Inr ((\<lparr>path = [], config = sample_config, rel = []\<rparr>, None),
          no_effects\<lparr>moduleErrors := [InvalidCharacter ''priv-app/b$'']\<rparr>)"
proof -
  let ?ctx = "sample_context\<lparr>ModuleName := ''b''\<rparr>"
  let ?p = "\<lparr>path = ''target/product/dev/system/priv-app/b'', config = sample_config, rel = []\<rparr>"
  let ?q = "\<lparr>path = ''target/product/dev/system/priv-app/b/b.apk'', config = sample_config, rel = []\<rparr>"
  have r: "install_root ?ctx = [''target'', ''product'', ''dev'', ''system'']"
    by (rule sample_install_root) (simp_all add: sample_partition, simp_all add: sample_context_def)
  have c: "Config ?ctx = sample_config" by (simp add: sample_context_def)
  have b: "proptools_Bool (Privileged (appProperties (sample_app ''b'')))"
    by (simp add: proptools_Bool_def sample_app_def)
  have n: "ModuleName ?ctx \<noteq> ''framework-res''" by simp
  have f: "\<not> Failed no_effects" by (simp add: Failed_def no_effects_def)
  have d: "dexBuildActions_installPath (sample_app ''b'') ?ctx no_effects = Inr (?q, no_effects)"
    by (simp add: dexBuildActions_installPath_def sample_app_def proptools_Bool_def
        PathForModuleInstall_root r PathForOutput_def sample_dex_validate c)
  have i: "PathForModuleInstall ?ctx [''priv-app'', ''b''] no_effects = Inr (?p, no_effects)"
    by (simp add: PathForModuleInstall_root r PathForOutput_def sample_install_validate c)
  obtain p1 where o1: "PathForModuleOut ?ctx [''b.apk''] no_effects = Inr (p1, no_effects)"
    using sample_module_out[of "''b''" "''b.apk''"] by (auto simp: plain_name_def)
  obtain p2 where o2: "PathForModuleOut ?ctx [''base.zip''] no_effects = Inr (p2, no_effects)"
    using sample_module_out[of "''b''" "''base.zip''"] by (auto simp: plain_name_def)
  have s: "sample_app ''b''\<lparr>installApkName := ''b''\<rparr> = sample_app ''b''"
    by (simp add: sample_app_def)
  have an: "installApkName (sample_app ''b'') = ''b''" by (simp add: sample_app_def)
  have g: "generateAndroidBuildActions (\<lambda>n. n) False (sample_app ''b'') ?ctx no_effects =
      Inr ((?q, Some (?p, ''b.apk'')), no_effects)"
    using b by (simp add: generateAndroidBuildActions_def Let_def s an d f o1 o2 i)
  have t: "stays_inside ''b''" by (rule plain_name_inside) (simp add: plain_name_def)
  from privileged_app_install_dir[OF b, of "\<lambda>n. n" False ?ctx no_effects] n g t
  have "under_install_dir ?ctx no_effects ''priv-app'' ?p \<and>
      \<not> under_install_dir ?ctx no_effects ''app'' ?p"
    by simp
  then have u1: "under_install_dir ?ctx no_effects ''priv-app'' ?p"
    and u2: "\<not> under_install_dir ?ctx no_effects ''app'' ?p"
    by simp_all
  show ?thesis
    by (intro conjI) (fact g, fact u1, fact u2, fact sample_early_return)
qed

text \<open>
  The claim as stated fails for the privileged module named \<^verbatim>\<open>framework-res\<close>: its
  install directory is \<^verbatim>\<open>framework\<close>, not \<^verbatim>\<open>priv-app\<close>.
\<close>

theorem privileged_app_install_dir_counterexample:
  "proptools_Bool (Privileged (appProperties (sample_app ''framework-res''))) \<and>
   generateAndroidBuildActions (\<lambda>n. n) False (sample_app ''framework-res'')
       (sample_context\<lparr>ModuleName := ''framework-res''\<rparr>) no_effects =
     Inr ((\<lparr>path = ''target/product/dev/system/framework/framework-res.apk'',
            config = sample_config, rel = []\<rparr>,
           Some (\<lparr>path = ''target/product/dev/system/framework'', config = sample_config, rel = []\<rparr>,
                 ''framework-res.apk'')), no_effects) \<and>
   \<not> under_install_dir (sample_context\<lparr>ModuleName := ''framework-res''\<rparr>) no_effects ''priv-app''
     \<lparr>path = ''target/product/dev/system/framework'', config = sample_config, rel = []\<rparr>"
proof -
  let ?ctx = "sample_context\<lparr>ModuleName := ''framework-res''\<rparr>"
  let ?p = "\<lparr>path = ''target/product/dev/system/framework'', config = sample_config, rel = []\<rparr>"
  let ?q = "\<lparr>path = ''target/product/dev/system/framework/framework-res.apk'',
            config = sample_config, rel = []\<rparr>"
  have r: "install_root ?ctx = [''target'', ''product'', ''dev'', ''system'']"
    by (rule sample_install_root) (simp_all add: sample_partition, simp_all add: sample_context_def)
  have c: "Config ?ctx = sample_config" by (simp add: sample_context_def)
  have b: "proptools_Bool (Privileged (appProperties (sample_app ''framework-res'')))"
    by (simp add: proptools_Bool_def sample_app_def)
  have f: "\<not> Failed no_effects" by (simp add: Failed_def no_effects_def)
  have d: "dexBuildActions_installPath (sample_app ''framework-res'') ?ctx no_effects
      = Inr (?q, no_effects)"
    by (simp add: dexBuildActions_installPath_def sample_app_def
        PathForModuleInstall_root r PathForOutput_def sample_dex_validate c)
  have i: "PathForModuleInstall ?ctx [''framework''] no_effects = Inr (?p, no_effects)"
    by (simp add: PathForModuleInstall_root r PathForOutput_def sample_install_validate c)
  obtain p1 where o1: "PathForModuleOut ?ctx [''framework-res.apk''] no_effects = Inr (p1, no_effects)"
    using sample_module_out[of "''framework-res''" "''framework-res.apk''"]
    by (auto simp: plain_name_def)
  obtain p2 where o2: "PathForModuleOut ?ctx [''base.zip''] no_effects = Inr (p2, no_effects)"
    using sample_module_out[of "''framework-res''" "''base.zip''"] by (auto simp: plain_name_def)
  have s: "sample_app ''framework-res''\<lparr>installApkName := ''framework-res''\<rparr>
      = sample_app ''framework-res''"
    by (simp add: sample_app_def)
  have g: "generateAndroidBuildActions (\<lambda>n. n) False (sample_app ''framework-res'') ?ctx no_effects =
      Inr ((?q, Some (?p, ''framework-res.apk'')), no_effects)"
    by (simp add: generateAndroidBuildActions_def Let_def s d f o1 o2 i)
  have e: "path_elems ''framework'' = [''framework'']"
    by (simp add: path_elems_def clean_elem_def)
  have "\<not> under_install_dir ?ctx no_effects ''priv-app'' ?p"
    using under_install_dir_iff[OF i e, of "''priv-app''"] by simp
  with b g show ?thesis by simp
qed

section \<open>Claims about the apex keys\<close>




end
